theory Spec2Isabelle
  imports Main "HOL-Library.Sublist" "HOL-Library.AList"
begin

section \<open>Data model: paths, archives, the file tree and the world\<close>

text \<open>
  A path is the list of its components below the root directory, which is also taken as the
  working directory of the run. A path names its location directly: the file-system calls
  below follow no component as \<open>.\<close> or \<open>..\<close>. The empty list is the root itself.
\<close>

type_synonym path = "string list"

text \<open>
  A compressed archive is the list of its members in the order of its directory: a file
  member with its name and data, a directory member, or a member whose local header is
  unreadable. The bytes of any other file are opaque.
\<close>

datatype 'c zentry = Member path 'c | Folder path | Damaged path

datatype content = Bytes string | Archive "content zentry list"

text \<open>
  A regular file carries its data, its modification time, and what the system lets the
  user of the run do with it: read it (\<open>readable\<close>), write it (unless \<open>readonly\<close>), change
  its mode and times (unless \<open>foreign\<close>: only the owner may), and remove it (unless \<open>busy\<close>:
  the entry is not the user's to remove, as in a directory without write permission or on a
  mount point). After \<open>os.chmod(path, stat.S_IWRITE)\<close>, mode \<open>0o200\<close>, a file is writable and
  no longer readable.
\<close>

record regfile =
  data :: content
  mtime :: nat
  readable :: bool
  readonly :: bool
  foreign :: bool
  busy :: bool

text \<open>
  A directory is \<open>sealed\<close> when the user may neither list it nor pass through it; mode
  \<open>0o200\<close> makes it so. It is \<open>fixed\<close> when its mode is not the user's to change. Every
  other directory can be listed, passed and written.
\<close>

record dirmode =
  sealed :: bool
  fixed :: bool

datatype node = File regfile | Dir dirmode

type_synonym tree = "(path \<times> node) list"

abbreviation new_dir :: node where
  "new_dir \<equiv> Dir \<lparr>sealed = False, fixed = False\<rparr>"

abbreviation new_file :: "content \<Rightarrow> nat \<Rightarrow> node" where
  "new_file d t \<equiv>
     File \<lparr>data = d, mtime = t, readable = True, readonly = False, foreign = False, busy = False\<rparr>"

text \<open>The exceptions the program meets, each with the text that \<open>str\<close> gives.\<close>

datatype exn =
    FileNotFoundError string
  | FileExistsError string
  | IsADirectoryError string
  | NotADirectoryError string
  | PermissionError string
  | SameFileError string
  | BadZipFile string
  | CalledProcessError "string list" int string
  | KeyboardInterrupt
  | EOFError
  | SystemExit int

datatype keyin = Line string | Interrupt

text \<open>
  The world: the file tree, the lines printed so far, a clock that stamps every file
  written, and what the terminal will deliver at the next prompts.
\<close>

record world =
  fs :: tree
  out :: "string list"
  clock :: nat
  stdin :: "keyin list"

type_synonym outcome = "exn option \<times> world"

type_synonym action = "world \<Rightarrow> outcome"

section \<open>Control flow: return, raise, sequencing, \<open>except Exception\<close>, \<open>for\<close>\<close>

definition ret :: action where
  "ret w = (None, w)"

definition raise :: "exn \<Rightarrow> action" where
  "raise e w = (Some e, w)"

definition seq :: "action \<Rightarrow> action \<Rightarrow> action" where
  "seq m k w = (case m w of (None, w') \<Rightarrow> k w' | (Some e, w') \<Rightarrow> (Some e, w'))"

text \<open>\<open>KeyboardInterrupt\<close> and \<open>SystemExit\<close> derive from \<open>BaseException\<close> only.\<close>

fun is_Exception :: "exn \<Rightarrow> bool" where
  "is_Exception KeyboardInterrupt = False"
| "is_Exception (SystemExit c) = False"
| "is_Exception e = True"

fun is_PermissionError :: "exn \<Rightarrow> bool" where
  "is_PermissionError (PermissionError m) = True"
| "is_PermissionError e = False"

fun is_FileExistsError :: "exn \<Rightarrow> bool" where
  "is_FileExistsError (FileExistsError m) = True"
| "is_FileExistsError e = False"

definition try_except_Exception :: "action \<Rightarrow> (exn \<Rightarrow> action) \<Rightarrow> action" where
  "try_except_Exception m h w =
     (case m w of
        (None, w') \<Rightarrow> (None, w')
      | (Some e, w') \<Rightarrow> if is_Exception e then h e w' else (Some e, w'))"

text \<open>A \<open>for\<close> loop over a list: the first exception of the body ends it.\<close>

primrec for_each :: "('a \<Rightarrow> action) \<Rightarrow> 'a list \<Rightarrow> action" where
  "for_each body [] = ret"
| "for_each body (x # xs) = seq (body x) (for_each body xs)"

definition print :: "string \<Rightarrow> action" where
  "print s w = (None, w\<lparr>out := out w @ [s]\<rparr>)"

section \<open>Paths and messages\<close>

definition name :: "path \<Rightarrow> string" where
  "name p = (if p = [] then [] else last p)"

fun join_slash :: "string list \<Rightarrow> string" where
  "join_slash [] = []"
| "join_slash [x] = x"
| "join_slash (x # y # ys) = x @ ''/'' @ join_slash (y # ys)"

definition str_path :: "path \<Rightarrow> string" where
  "str_path p = (if p = [] then ''.'' else join_slash p)"

definition quoted :: "string \<Rightarrow> string" where
  "quoted s = [CHR 0x27] @ s @ [CHR 0x27]"

text \<open>
  \<open>repr\<close> of a string: in double quotes when it holds a single quote and no double one,
  with the backslash, the quote, the control characters and the unprintable characters
  escaped.
\<close>

definition hex_digit :: "nat \<Rightarrow> char" where
  "hex_digit n = (if n < 10 then char_of (48 + n) else char_of (87 + n))"

definition escape :: "char \<Rightarrow> char \<Rightarrow> string" where
  "escape q c =
     (let n = (of_char c :: nat) in
      if c = CHR 0x5C \<or> c = q then [CHR 0x5C, c]
      else if n = 9 then [CHR 0x5C, CHR ''t'']
      else if n = 10 then [CHR 0x5C, CHR ''n'']
      else if n = 13 then [CHR 0x5C, CHR ''r'']
      else if n < 32 \<or> (127 \<le> n \<and> n \<le> 160) \<or> n = 173
        then [CHR 0x5C, CHR ''x'', hex_digit (n div 16), hex_digit (n mod 16)]
      else [c])"

definition repr :: "string \<Rightarrow> string" where
  "repr s =
     (let q = (if CHR 0x27 \<in> set s \<and> CHR 0x22 \<notin> set s then CHR 0x22 else CHR 0x27)
      in [q] @ concat (map (escape q) s) @ [q])"

function str_nat :: "nat \<Rightarrow> string" where
  "str_nat n =
     (if n < 10 then [char_of (48 + n)] else str_nat (n div 10) @ [char_of (48 + n mod 10)])"
  by pat_completeness auto
termination
  by (relation "measure id") auto

declare str_nat.simps [simp del]

definition str_int :: "int \<Rightarrow> string" where
  "str_int i = (if i < 0 then ''-'' @ str_nat (nat (- i)) else str_nat (nat i))"

definition repr_list :: "string list \<Rightarrow> string" where
  "repr_list xs = ''['' @ concat (map repr (take 1 xs)) @
     concat (map (\<lambda>x. '', '' @ repr x) (drop 1 xs)) @ '']''"

text \<open>The names of the signals, by number, as \<open>signal.Signals\<close> has them on Linux.\<close>

definition Signals :: "nat \<Rightarrow> string option" where
  "Signals = map_of
     [(1, ''SIGHUP''), (2, ''SIGINT''), (3, ''SIGQUIT''), (4, ''SIGILL''), (5, ''SIGTRAP''),
      (6, ''SIGABRT''), (7, ''SIGBUS''), (8, ''SIGFPE''), (9, ''SIGKILL''), (10, ''SIGUSR1''),
      (11, ''SIGSEGV''), (12, ''SIGUSR2''), (13, ''SIGPIPE''), (14, ''SIGALRM''),
      (15, ''SIGTERM''), (16, ''SIGSTKFLT''), (17, ''SIGCHLD''), (18, ''SIGCONT''),
      (19, ''SIGSTOP''), (20, ''SIGTSTP''), (21, ''SIGTTIN''), (22, ''SIGTTOU''),
      (23, ''SIGURG''), (24, ''SIGXCPU''), (25, ''SIGXFSZ''), (26, ''SIGVTALRM''),
      (27, ''SIGPROF''), (28, ''SIGWINCH''), (29, ''SIGIO''), (30, ''SIGPWR''),
      (31, ''SIGSYS''), (34, ''SIGRTMIN''), (64, ''SIGRTMAX'')]"

fun str_exn :: "exn \<Rightarrow> string" where
  "str_exn (FileNotFoundError m) = m"
| "str_exn (FileExistsError m) = m"
| "str_exn (IsADirectoryError m) = m"
| "str_exn (NotADirectoryError m) = m"
| "str_exn (PermissionError m) = m"
| "str_exn (SameFileError m) = m"
| "str_exn (BadZipFile m) = m"
| "str_exn (CalledProcessError cmd rc err) =
     ''Command '' @ quoted (repr_list cmd) @
     (if rc < 0 then
        (case Signals (nat (- rc)) of
           Some s \<Rightarrow> '' died with <Signals.'' @ s @ '': '' @ str_nat (nat (- rc)) @ ''>.''
         | None \<Rightarrow> '' died with unknown signal '' @ str_nat (nat (- rc)) @ ''.'')
      else '' returned non-zero exit status '' @ str_int rc @ ''.'')"
| "str_exn KeyboardInterrupt = []"
| "str_exn EOFError = ''EOF when reading a line''"
| "str_exn (SystemExit c) = str_int c"

definition ENOENT :: "path \<Rightarrow> exn" where
  "ENOENT p = FileNotFoundError (''[Errno 2] No such file or directory: '' @ repr (str_path p))"

definition EEXIST :: "path \<Rightarrow> exn" where
  "EEXIST p = FileExistsError (''[Errno 17] File exists: '' @ repr (str_path p))"

definition EISDIR :: "path \<Rightarrow> exn" where
  "EISDIR p = IsADirectoryError (''[Errno 21] Is a directory: '' @ repr (str_path p))"

definition ENOTDIR :: "path \<Rightarrow> exn" where
  "ENOTDIR p = NotADirectoryError (''[Errno 20] Not a directory: '' @ repr (str_path p))"

definition EACCES :: "path \<Rightarrow> exn" where
  "EACCES p = PermissionError (''[Errno 13] Permission denied: '' @ repr (str_path p))"

definition EPERM :: "path \<Rightarrow> exn" where
  "EPERM p = PermissionError (''[Errno 1] Operation not permitted: '' @ repr (str_path p))"

section \<open>File-system calls\<close>

text \<open>
  The system reaches a path from the root through the directories above it, top first:
  a missing one, a regular file or a sealed directory on the way ends the call with the
  error of that case, which names the path asked for.
\<close>

fun walk :: "tree \<Rightarrow> path \<Rightarrow> path list \<Rightarrow> exn option" where
  "walk t p [] = None"
| "walk t p (q # qs) =
     (case map_of t q of
        None \<Rightarrow> Some (ENOENT p)
      | Some (File f) \<Rightarrow> Some (ENOTDIR p)
      | Some (Dir m) \<Rightarrow> if sealed m then Some (EACCES p) else walk t p qs)"

definition above :: "path \<Rightarrow> path list" where
  "above p = butlast (tl (prefixes p))"

definition blocked :: "tree \<Rightarrow> path \<Rightarrow> exn option" where
  "blocked t p = walk t p (above p)"

text \<open>
  \<open>os.stat\<close>: the node at a path that can be reached. The root is a directory that is
  always there; its mode is not the user's to change.
\<close>

definition stat :: "tree \<Rightarrow> path \<Rightarrow> exn + node" where
  "stat t p =
     (case blocked t p of
        Some e \<Rightarrow> Inl e
      | None \<Rightarrow>
          if p = [] then Inr (Dir \<lparr>sealed = False, fixed = True\<rparr>)
          else case map_of t p of None \<Rightarrow> Inl (ENOENT p) | Some n \<Rightarrow> Inr n)"

text \<open>\<open>os.path.exists\<close> and \<open>os.path.isdir\<close> answer \<open>False\<close> on every error.\<close>

definition os_path_exists :: "tree \<Rightarrow> path \<Rightarrow> bool" where
  "os_path_exists t p = (case stat t p of Inr n \<Rightarrow> True | Inl e \<Rightarrow> False)"

definition os_path_isdir :: "tree \<Rightarrow> path \<Rightarrow> bool" where
  "os_path_isdir t p = (case stat t p of Inr (Dir m) \<Rightarrow> True | _ \<Rightarrow> False)"

text \<open>
  \<open>Path.exists()\<close>, \<open>Path.is_dir()\<close> and \<open>Path.is_file()\<close> answer \<open>False\<close> where the path or a
  directory above it is missing or not a directory, and raise the \<open>PermissionError\<close> of a
  sealed directory on the way.
\<close>

definition Path_test :: "(node \<Rightarrow> bool) \<Rightarrow> tree \<Rightarrow> path \<Rightarrow> exn + bool" where
  "Path_test P t p =
     (case stat t p of
        Inr n \<Rightarrow> Inr (P n)
      | Inl e \<Rightarrow> if is_PermissionError e then Inl e else Inr False)"

definition Path_exists :: "tree \<Rightarrow> path \<Rightarrow> exn + bool" where
  "Path_exists = Path_test (\<lambda>n. True)"

definition Path_is_dir :: "tree \<Rightarrow> path \<Rightarrow> exn + bool" where
  "Path_is_dir = Path_test (\<lambda>n. case n of Dir m \<Rightarrow> True | File f \<Rightarrow> False)"

definition Path_is_file :: "tree \<Rightarrow> path \<Rightarrow> exn + bool" where
  "Path_is_file = Path_test (\<lambda>n. case n of File f \<Rightarrow> True | Dir m \<Rightarrow> False)"

text \<open>
  \<open>os.chmod(path, stat.S_IWRITE)\<close> sets mode \<open>0o200\<close>, on a regular file and on a directory
  alike: the file becomes writable and unreadable, the directory sealed. Only the owner
  may do it.
\<close>

definition os_chmod_S_IWRITE :: "path \<Rightarrow> action" where
  "os_chmod_S_IWRITE p w =
     (case stat (fs w) p of
        Inl e \<Rightarrow> raise e w
      | Inr (File f) \<Rightarrow>
          if foreign f then raise (EPERM p) w
          else ret (w\<lparr>fs := AList.update p (File (f\<lparr>readable := False, readonly := False\<rparr>)) (fs w)\<rparr>)
      | Inr (Dir m) \<Rightarrow>
          if fixed m then raise (EPERM p) w
          else ret (w\<lparr>fs := AList.update p (Dir (m\<lparr>sealed := True\<rparr>)) (fs w)\<rparr>))"

text \<open>
  \<open>Path.unlink()\<close>: removes a regular file, whatever its mode; a directory and a busy file
  are refused.
\<close>

definition path_unlink :: "path \<Rightarrow> action" where
  "path_unlink p w =
     (case stat (fs w) p of
        Inl e \<Rightarrow> raise e w
      | Inr (Dir m) \<Rightarrow> raise (EISDIR p) w
      | Inr (File f) \<Rightarrow>
          if busy f then raise (EACCES p) w
          else ret (w\<lparr>fs := AList.delete p (fs w)\<rparr>))"

text \<open>
  \<open>os.scandir\<close>: the entries of a directory that can be reached and listed, each once, in
  the order in which the tree holds them.
\<close>

definition listdir :: "tree \<Rightarrow> path \<Rightarrow> path list" where
  "listdir t d = remdups [p \<leftarrow> map fst t. p \<noteq> [] \<and> butlast p = d]"

definition scandir :: "tree \<Rightarrow> path \<Rightarrow> exn + path list" where
  "scandir t d =
     (case stat t d of
        Inl e \<Rightarrow> Inl e
      | Inr (File f) \<Rightarrow> Inl (ENOTDIR d)
      | Inr (Dir m) \<Rightarrow> if sealed m then Inl (EACCES d) else Inr (listdir t d))"

definition is_dir_entry :: "tree \<Rightarrow> path \<Rightarrow> bool" where
  "is_dir_entry t p = (case map_of t p of Some (Dir m) \<Rightarrow> True | _ \<Rightarrow> False)"

definition class_pattern :: "string \<Rightarrow> bool" where
  "class_pattern n = suffix ''.class'' n"

definition any_pattern :: "string \<Rightarrow> bool" where
  "any_pattern n = True"

text \<open>
  \<open>for path in directory.rglob(pattern): body\<close>. The generator is lazy: it lists a
  directory, hands the entries whose name matches to the body one by one, then lists the
  directory again and goes down into each of its subdirectories. So what the body has done
  to a directory is in force when that directory is reached. A directory that cannot be
  listed for lack of permission is passed over in silence; any other error of the listing
  ends the loop as an exception. The first argument bounds the levels still to go down.
\<close>

primrec rglob_loop :: "nat \<Rightarrow> (string \<Rightarrow> bool) \<Rightarrow> (path \<Rightarrow> action) \<Rightarrow> path \<Rightarrow> action" where
  "rglob_loop 0 pat body d = ret"
| "rglob_loop (Suc n) pat body d =
     (\<lambda>w. case scandir (fs w) d of
        Inl e \<Rightarrow> if is_PermissionError e then ret w else raise e w
      | Inr es \<Rightarrow>
          seq (for_each body [p \<leftarrow> es. pat (name p)])
              (\<lambda>w'. case scandir (fs w') d of
                 Inl e \<Rightarrow> if is_PermissionError e then ret w' else raise e w'
               | Inr es' \<Rightarrow>
                   for_each (rglob_loop n pat body) [c \<leftarrow> es'. is_dir_entry (fs w') c] w') w)"

text \<open>
  The longest path of the tree bounds the levels of every directory in it. \<open>rglob\<close> looks
  first whether its directory is one.
\<close>

definition depth :: "tree \<Rightarrow> nat" where
  "depth t = fold max (map (length \<circ> fst) t) 0"

definition rglob_for :: "path \<Rightarrow> (string \<Rightarrow> bool) \<Rightarrow> (path \<Rightarrow> action) \<Rightarrow> action" where
  "rglob_for directory pat body w =
     (case Path_is_dir (fs w) directory of
        Inl e \<Rightarrow> raise e w
      | Inr False \<Rightarrow> ret w
      | Inr True \<Rightarrow> rglob_loop (depth (fs w)) pat body directory w)"

text \<open>
  \<open>Path.mkdir(parents=True, exist_ok=True)\<close>: every missing directory above the path and
  the path itself are made; a regular file or a sealed directory on the way is an error
  that names the path, and nothing is made.
\<close>

fun mkdir_chain :: "path \<Rightarrow> path list \<Rightarrow> tree \<Rightarrow> exn + tree" where
  "mkdir_chain p [] t = Inr t"
| "mkdir_chain p (q # qs) t =
     (case map_of t q of
        Some (Dir m) \<Rightarrow> if sealed m \<and> q \<noteq> p then Inl (EACCES p) else mkdir_chain p qs t
      | Some (File f) \<Rightarrow> Inl (if q = p then EEXIST p else ENOTDIR p)
      | None \<Rightarrow> mkdir_chain p qs (AList.update q new_dir t))"

definition mkdir_parents :: "path \<Rightarrow> action" where
  "mkdir_parents p w =
     (case mkdir_chain p (tl (prefixes p)) (fs w) of
        Inl e \<Rightarrow> raise e w
      | Inr t \<Rightarrow> ret (w\<lparr>fs := t\<rparr>))"

text \<open>
  \<open>open(path, 'w')\<close>, writing the data and closing: the path must be reachable and no
  directory, and an existing file must be writable. The file is stamped with the clock,
  which advances.
\<close>

definition write_file :: "path \<Rightarrow> content \<Rightarrow> action" where
  "write_file p d w =
     (case blocked (fs w) p of
        Some e \<Rightarrow> raise e w
      | None \<Rightarrow>
          if p = [] then raise (EISDIR p) w
          else case map_of (fs w) p of
            Some (Dir m) \<Rightarrow> raise (EISDIR p) w
          | Some (File f) \<Rightarrow>
              if readonly f then raise (EACCES p) w
              else ret (w\<lparr>fs := AList.update p (File (f\<lparr>data := d, mtime := clock w\<rparr>)) (fs w),
                           clock := Suc (clock w)\<rparr>)
          | None \<Rightarrow>
              ret (w\<lparr>fs := AList.update p (new_file d (clock w)) (fs w),
                      clock := Suc (clock w)\<rparr>))"

text \<open>\<open>open(path, 'rb')\<close>: the regular file to read.\<close>

definition open_read :: "tree \<Rightarrow> path \<Rightarrow> exn + regfile" where
  "open_read t p =
     (case stat t p of
        Inl e \<Rightarrow> Inl e
      | Inr (Dir m) \<Rightarrow> Inl (EISDIR p)
      | Inr (File f) \<Rightarrow> if readable f then Inr f else Inl (EACCES p))"

section \<open>The artifact cleaner: \<open>_remove_class_files\<close>\<close>

definition remove_one :: "path \<Rightarrow> action" where
  "remove_one p =
     try_except_Exception (seq (os_chmod_S_IWRITE p) (path_unlink p))
       (\<lambda>e. print (''[!] Could not remove file: '' @ name p @ ''. Error: '' @ str_exn e))"

definition remove_class_files :: "path \<Rightarrow> action" where
  "remove_class_files directory = rglob_for directory class_pattern remove_one"

section \<open>The archive unpacker: \<open>_extract_jar_contents\<close>\<close>

text \<open>
  \<open>os.mkdir\<close>, and \<open>os.makedirs\<close> as the extraction calls it: the directories above are
  made first, from the first one that \<open>os.path.exists\<close> does not find, and the error names
  the directory that could not be made.
\<close>

definition os_mkdir :: "path \<Rightarrow> action" where
  "os_mkdir p w =
     (case blocked (fs w) p of
        Some e \<Rightarrow> raise e w
      | None \<Rightarrow>
          if p = [] \<or> map_of (fs w) p \<noteq> None then raise (EEXIST p) w
          else ret (w\<lparr>fs := AList.update p new_dir (fs w)\<rparr>))"

function os_makedirs :: "path \<Rightarrow> action" where
  "os_makedirs p w =
     (if butlast p \<noteq> [] \<and> \<not> os_path_exists (fs w) (butlast p) then
        (case os_makedirs (butlast p) w of
           (None, w') \<Rightarrow> os_mkdir p w'
         | (Some e, w') \<Rightarrow> if is_FileExistsError e then os_mkdir p w' else (Some e, w'))
      else os_mkdir p w)"
  by pat_completeness auto
termination
proof (relation "measure (\<lambda>(p, w). length p)")
  fix p :: path and w :: world
  assume "butlast p \<noteq> [] \<and> \<not> os_path_exists (fs w) (butlast p)"
  then have "p \<noteq> []" by auto
  then show "((butlast p, w), (p, w)) \<in> measure (\<lambda>(p, w). length p)" by simp
qed simp

declare os_makedirs.simps [simp del]

text \<open>
  \<open>ZipFile.extractall\<close> takes the names of the members in order, and for each name the
  last member that bears it. A member's name loses its empty, \<open>.\<close> and \<open>..\<close> components, the
  directories above the target are made when \<open>os.path.exists\<close> does not find the target's
  parent, and then a directory member is made unless it is there, a file member is written,
  and an unreadable member raises \<open>BadZipFile\<close>. The first exception ends the extraction.
\<close>

definition sanitize :: "path \<Rightarrow> path" where
  "sanitize n = [c \<leftarrow> n. c \<noteq> [] \<and> c \<noteq> ''.'' \<and> c \<noteq> ''..'']"

fun filename :: "'c zentry \<Rightarrow> string" where
  "filename (Member n d) = join_slash n"
| "filename (Folder n) = join_slash n @ ''/''"
| "filename (Damaged n) = join_slash n"

definition getinfo :: "'c zentry list \<Rightarrow> 'c zentry \<Rightarrow> 'c zentry" where
  "getinfo ms m = last (m # [x \<leftarrow> ms. filename x = filename m])"

definition make_upperdirs :: "path \<Rightarrow> action" where
  "make_upperdirs target w =
     (if butlast target \<noteq> [] \<and> \<not> os_path_exists (fs w) (butlast target)
      then os_makedirs (butlast target) w else ret w)"

definition extract_dir_member :: "path \<Rightarrow> action" where
  "extract_dir_member target =
     seq (make_upperdirs target)
       (\<lambda>w. if os_path_isdir (fs w) target then ret w else os_mkdir target w)"

fun extract_member :: "path \<Rightarrow> content zentry \<Rightarrow> action" where
  "extract_member dir (Member n d) =
     (if suffix ''/'' (join_slash n) then extract_dir_member (dir @ sanitize n)
      else seq (make_upperdirs (dir @ sanitize n)) (write_file (dir @ sanitize n) d))"
| "extract_member dir (Folder n) = extract_dir_member (dir @ sanitize n)"
| "extract_member dir (Damaged n) =
     (if suffix ''/'' (join_slash n) then extract_dir_member (dir @ sanitize n)
      else seq (make_upperdirs (dir @ sanitize n))
             (raise (BadZipFile ''Bad magic number for file header'')))"

definition zip_extractall :: "path \<Rightarrow> path \<Rightarrow> action" where
  "zip_extractall jar_path extract_dir w =
     (case open_read (fs w) jar_path of
        Inl e \<Rightarrow> raise e w
      | Inr f \<Rightarrow>
          (case data f of
             Bytes b \<Rightarrow> raise (BadZipFile ''File is not a zip file'') w
           | Archive ms \<Rightarrow> for_each (extract_member extract_dir) (map (getinfo ms) ms) w))"

definition extract_jar_contents :: "path \<Rightarrow> path \<Rightarrow> action" where
  "extract_jar_contents jar_path extract_dir =
     try_except_Exception (zip_extractall jar_path extract_dir)
       (\<lambda>e. print (''[!] Extraction warning: '' @ str_exn e))"

section \<open>The decompiler invoker: \<open>_run_cfr\<close>\<close>

text \<open>
  The external process is opaque. \<open>subprocess.run\<close> either cannot start it (no \<open>java\<close> on
  the system path), or it exits with a return code, its standard-error text (decoded,
  undecodable bytes dropped) and the files it has written below its output directory.
  What the process does is a function of its command line and of the file tree it finds.
\<close>

datatype proc = NotStarted | Exited int string "(path \<times> content) list"

type_synonym runner = "string list \<Rightarrow> tree \<Rightarrow> proc"

record CFRDecompiler =
  cfr_jar_path :: path

definition new_CFRDecompiler :: "path \<Rightarrow> tree \<Rightarrow> exn + CFRDecompiler" where
  "new_CFRDecompiler p t =
     (case Path_exists t p of
        Inl e \<Rightarrow> Inl e
      | Inr False \<Rightarrow> Inl (FileNotFoundError (''CFR jar not found at: '' @ str_path p))
      | Inr True \<Rightarrow> Inr \<lparr>cfr_jar_path = p\<rparr>)"

text \<open>
  A file the process has written, given by its name relative to the output directory (the
  name's empty, \<open>.\<close> and \<open>..\<close> components do not count, so the file lies below that
  directory): its directories are made and the file is stored; a write that the file tree
  refuses leaves no file.
\<close>

definition ext_write :: "path \<Rightarrow> path \<times> content \<Rightarrow> world \<Rightarrow> world" where
  "ext_write output_dir f w =
     snd (seq (mkdir_parents (butlast (output_dir @ sanitize (fst f))))
            (write_file (output_dir @ sanitize (fst f)) (snd f)) w)"

definition cfr_command :: "CFRDecompiler \<Rightarrow> path \<Rightarrow> path \<Rightarrow> string list" where
  "cfr_command self jar_path output_dir =
     [''java'', ''-jar'', str_path (cfr_jar_path self), str_path jar_path,
      ''--outputdir'', str_path output_dir, ''--silent'', ''true'']"

definition subprocess_run_check :: "runner \<Rightarrow> string list \<Rightarrow> path \<Rightarrow> action" where
  "subprocess_run_check java command output_dir w =
     (case java command (fs w) of
        NotStarted \<Rightarrow> raise (ENOENT [hd command]) w
      | Exited rc err files \<Rightarrow>
          if rc = 0 then ret (fold (ext_write output_dir) files w)
          else raise (CalledProcessError command rc err) (fold (ext_write output_dir) files w))"

definition run_cfr :: "runner \<Rightarrow> CFRDecompiler \<Rightarrow> path \<Rightarrow> path \<Rightarrow> action" where
  "run_cfr java self jar_path output_dir =
     seq (print (''[*] Running CFR for '' @ name jar_path @ ''...''))
       (\<lambda>w. case subprocess_run_check java (cfr_command self jar_path output_dir) output_dir w of
              (Some (CalledProcessError cmd rc err), w') \<Rightarrow>
                 seq (print (''[!] Decompilation error: '' @ err))
                   (raise (CalledProcessError cmd rc err)) w'
            | r \<Rightarrow> r)"

section \<open>The scoped temporary directory\<close>

text \<open>
  \<open>tempfile.TemporaryDirectory()\<close> makes a directory in the first of \<open>/tmp\<close>, \<open>/var/tmp\<close>,
  \<open>/usr/tmp\<close> and the working directory that is a directory the user can write, under a
  name that no existing path uses, and removes it with all it holds when the block is left,
  also by an exception and also where a directory in it has been sealed. The name chosen
  here is longer than every component in the tree.
\<close>

definition widest :: "tree \<Rightarrow> nat" where
  "widest t = fold max (map length (concat (map fst t))) 0"

definition usable :: "tree \<Rightarrow> path \<Rightarrow> bool" where
  "usable t d = (case stat t d of Inr (Dir m) \<Rightarrow> \<not> sealed m | _ \<Rightarrow> False)"

definition gettempdir :: "tree \<Rightarrow> path" where
  "gettempdir t =
     (case filter (usable t) [[''tmp''], [''var'', ''tmp''], [''usr'', ''tmp'']] of
        d # ds \<Rightarrow> d | [] \<Rightarrow> [])"

definition mkdtemp :: "tree \<Rightarrow> path" where
  "mkdtemp t = gettempdir t @ [''tmp'' @ replicate (widest t) (CHR ''_'')]"

definition rmtree :: "path \<Rightarrow> tree \<Rightarrow> tree" where
  "rmtree d t = [e \<leftarrow> t. \<not> prefix d (fst e)]"

definition with_TemporaryDirectory :: "(path \<Rightarrow> action) \<Rightarrow> action" where
  "with_TemporaryDirectory body w =
     (let tmp_dir = mkdtemp (fs w) in
      case body tmp_dir (w\<lparr>fs := AList.update tmp_dir new_dir (fs w)\<rparr>) of
        (r, w') \<Rightarrow> (r, w'\<lparr>fs := rmtree tmp_dir (fs w')\<rparr>))"

section \<open>The three mode pipelines\<close>

text \<open>
  Inplace, the repackaging. \<open>ZipFile(jar_path, 'w')\<close> creates or truncates the file at once.
  Each \<open>zipf.write(file_path, arcname)\<close> reads a regular file that \<open>tmp_path.rglob('*')\<close>
  yields and adds it as a member named by its path relative to \<open>tmp_path\<close>. Leaving the
  block, also by an exception, closes the archive with the members it has by then.
\<close>

definition zip_add :: "path \<Rightarrow> path \<Rightarrow> content \<Rightarrow> action" where
  "zip_add jar_path arcname d w =
     (case map_of (fs w) jar_path of
        Some (File g) \<Rightarrow>
          (case data g of
             Archive ms \<Rightarrow>
               ret (w\<lparr>fs := AList.update jar_path
                              (File (g\<lparr>data := Archive (ms @ [Member arcname d])\<rparr>)) (fs w)\<rparr>)
           | Bytes b \<Rightarrow> ret w)
      | _ \<Rightarrow> ret w)"

definition zip_one :: "path \<Rightarrow> path \<Rightarrow> path \<Rightarrow> action" where
  "zip_one jar_path tmp_path file_path w =
     (case Path_is_file (fs w) file_path of
        Inl e \<Rightarrow> raise e w
      | Inr False \<Rightarrow> ret w
      | Inr True \<Rightarrow>
          (case open_read (fs w) file_path of
             Inl e \<Rightarrow> raise e w
           | Inr f \<Rightarrow> zip_add jar_path (drop (length tmp_path) file_path) (data f) w))"

definition zip_close :: "path \<Rightarrow> world \<Rightarrow> world" where
  "zip_close jar_path w =
     (case map_of (fs w) jar_path of
        Some (File g) \<Rightarrow>
          w\<lparr>fs := AList.update jar_path (File (g\<lparr>mtime := clock w\<rparr>)) (fs w),
            clock := Suc (clock w)\<rparr>
      | _ \<Rightarrow> w)"

definition zip_write :: "path \<Rightarrow> path \<Rightarrow> action" where
  "zip_write jar_path tmp_path =
     seq (write_file jar_path (Archive []))
       (\<lambda>w. case rglob_for tmp_path any_pattern (zip_one jar_path tmp_path) w of
               (r, w') \<Rightarrow> (r, zip_close jar_path w'))"

definition stage_inplace :: "runner \<Rightarrow> CFRDecompiler \<Rightarrow> path \<Rightarrow> path \<Rightarrow> action" where
  "stage_inplace java self jar_path tmp_path =
     seq (extract_jar_contents jar_path tmp_path)
    (seq (run_cfr java self jar_path tmp_path)
         (remove_class_files tmp_path))"

definition mode_1_inplace :: "runner \<Rightarrow> CFRDecompiler \<Rightarrow> path \<Rightarrow> action" where
  "mode_1_inplace java self jar_path =
     seq (print (''[*] Mode 1: Updating '' @ name jar_path @ ''...''))
    (seq (with_TemporaryDirectory (\<lambda>tmp_path.
            seq (stage_inplace java self jar_path tmp_path)
                (zip_write jar_path tmp_path)))
         (print (''[+] Done! '' @ name jar_path @ '' updated with sources.'')))"

definition mode_2_to_folder :: "runner \<Rightarrow> CFRDecompiler \<Rightarrow> path \<Rightarrow> path \<Rightarrow> action" where
  "mode_2_to_folder java self jar_path output_dir =
     seq (mkdir_parents output_dir)
    (seq (print (''[*] Mode 2: Exporting to '' @ name output_dir @ ''...''))
    (seq (extract_jar_contents jar_path output_dir)
    (seq (run_cfr java self jar_path output_dir)
    (seq (remove_class_files output_dir)
         (print (''[+] Done! Files saved to '' @ quoted (str_path output_dir) @ ''.''))))))"

text \<open>
  \<open>shutil.copy2(src, dst)\<close>: a destination that is a directory receives the file under
  the source's name; a file is not copied onto itself; the source is opened, the data is
  written, then the modification time and the mode of the source are put on the copy,
  which only the owner of the copy may do.
\<close>

definition copystat :: "regfile \<Rightarrow> path \<Rightarrow> action" where
  "copystat f dst w =
     (case stat (fs w) dst of
        Inl e \<Rightarrow> raise e w
      | Inr (Dir m) \<Rightarrow> ret w
      | Inr (File g) \<Rightarrow>
          if foreign g then raise (PermissionError ''[Errno 1] Operation not permitted'') w
          else ret (w\<lparr>fs := AList.update dst
                          (File (g\<lparr>mtime := mtime f, readable := readable f,
                                   readonly := readonly f\<rparr>)) (fs w)\<rparr>))"

definition shutil_copy2 :: "path \<Rightarrow> path \<Rightarrow> action" where
  "shutil_copy2 src dst w =
     (let into = os_path_isdir (fs w) dst;
          dst' = (if into then dst @ [name src] else dst) in
      if dst' = src \<and> os_path_exists (fs w) src then
        raise (SameFileError (''PosixPath('' @ repr (str_path src) @ '') and '' @
                 (if into then repr (str_path dst')
                  else ''PosixPath('' @ repr (str_path dst') @ '')'') @
                 '' are the same file'')) w
      else case open_read (fs w) src of
        Inl e \<Rightarrow> raise e w
      | Inr f \<Rightarrow> seq (write_file dst' (data f)) (copystat f dst') w)"

text \<open>
  \<open>for root, _, files in os.walk(tmp_path): for file in files: body\<close>. The generator lists
  a directory, hands over the entries that are no directories, and then goes down into
  each subdirectory of that listing; a directory that cannot be listed is passed over in
  silence. The first argument bounds the levels still to go down.
\<close>

primrec walk_loop :: "nat \<Rightarrow> (path \<Rightarrow> action) \<Rightarrow> path \<Rightarrow> action" where
  "walk_loop 0 body root = ret"
| "walk_loop (Suc n) body root =
     (\<lambda>w. case scandir (fs w) root of
        Inl e \<Rightarrow> ret w
      | Inr es \<Rightarrow>
          seq (for_each body [p \<leftarrow> es. \<not> is_dir_entry (fs w) p])
              (for_each (walk_loop n body) [c \<leftarrow> es. is_dir_entry (fs w) c]) w)"

definition walk_for :: "path \<Rightarrow> (path \<Rightarrow> action) \<Rightarrow> action" where
  "walk_for root body w = walk_loop (depth (fs w)) body root w"

definition copy_one :: "path \<Rightarrow> path \<Rightarrow> path \<Rightarrow> action" where
  "copy_one tmp_path res_dir src_file =
     seq (mkdir_parents (butlast (res_dir @ drop (length tmp_path) src_file)))
         (shutil_copy2 src_file (res_dir @ drop (length tmp_path) src_file))"

definition copy_resources :: "path \<Rightarrow> path \<Rightarrow> action" where
  "copy_resources tmp_path res_dir = walk_for tmp_path (copy_one tmp_path res_dir)"

definition build_gradle_content :: string where
  "build_gradle_content =
     ''plugins {'' @ [CHR 0x0A] @ ''    id '' @ quoted ''java'' @ [CHR 0x0A] @ ''}'' @ [CHR 0x0A] @
     ''group = '' @ quoted ''com.decompiled'' @ [CHR 0x0A] @
     ''version = '' @ quoted ''1.0-SNAPSHOT'' @ [CHR 0x0A] @
     ''repositories {'' @ [CHR 0x0A] @ ''    mavenCentral()'' @ [CHR 0x0A] @ ''}'' @ [CHR 0x0A]"

definition java_dir_of :: "path \<Rightarrow> path" where
  "java_dir_of proj_dir = proj_dir @ [''src'', ''main'', ''java'']"

definition res_dir_of :: "path \<Rightarrow> path" where
  "res_dir_of proj_dir = proj_dir @ [''src'', ''main'', ''resources'']"

definition stage_resources :: "path \<Rightarrow> path \<Rightarrow> action" where
  "stage_resources jar_path tmp_path =
     seq (extract_jar_contents jar_path tmp_path) (remove_class_files tmp_path)"

definition mode_3_gradle_project :: "runner \<Rightarrow> CFRDecompiler \<Rightarrow> path \<Rightarrow> path \<Rightarrow> action" where
  "mode_3_gradle_project java self jar_path proj_dir =
     seq (mkdir_parents (java_dir_of proj_dir))
    (seq (mkdir_parents (res_dir_of proj_dir))
    (seq (print (''[*] Mode 3: Creating Gradle project in '' @ name proj_dir @ ''...''))
    (seq (run_cfr java self jar_path (java_dir_of proj_dir))
    (seq (with_TemporaryDirectory (\<lambda>tmp_path.
            seq (stage_resources jar_path tmp_path)
                (copy_resources tmp_path (res_dir_of proj_dir))))
    (seq (write_file (proj_dir @ [''build.gradle'']) (Bytes build_gradle_content))
         (print (''[+] Done! Project ready at '' @ quoted (str_path proj_dir) @ ''.'')))))))"

section \<open>The interactive entry point\<close>

text \<open>
  \<open>input(prompt)\<close> prints the prompt and takes what the terminal delivers: a line, an
  interrupt (\<open>KeyboardInterrupt\<close>) or the end of the input (\<open>EOFError\<close>).
\<close>

definition input :: "string \<Rightarrow> (string \<Rightarrow> action) \<Rightarrow> action" where
  "input prompt k w =
     (case stdin w of
        [] \<Rightarrow> raise EOFError (w\<lparr>out := out w @ [prompt]\<rparr>)
      | Interrupt # rest \<Rightarrow> raise KeyboardInterrupt (w\<lparr>out := out w @ [prompt], stdin := rest\<rparr>)
      | Line s # rest \<Rightarrow> k s (w\<lparr>out := out w @ [prompt], stdin := rest\<rparr>))"

definition isspace :: "char \<Rightarrow> bool" where
  "isspace c = (of_char c \<in> {9, 10, 11, 12, 13, 28, 29, 30, 31, 32, 133, 160 :: nat})"

definition strip :: "string \<Rightarrow> string" where
  "strip s = rev (dropWhile isspace (rev (dropWhile isspace s)))"

fun split_on :: "char \<Rightarrow> string \<Rightarrow> string list" where
  "split_on c [] = [[]]"
| "split_on c (x # xs) =
     (if x = c then [] # split_on c xs
      else case split_on c xs of [] \<Rightarrow> [[x]] | y # ys \<Rightarrow> (x # y) # ys)"

text \<open>
  \<open>os.path.isfile(name)\<close> on a name as it was typed. The system takes the name component
  by component from the working directory: an empty component (a doubled or a final
  slash) asks that the place reached is a directory, \<open>.\<close> stays in it, \<open>..\<close> goes one up
  (the root is its own parent), and a name goes down; to use a place for any of these it
  must be a directory that is not sealed. The answer is \<open>True\<close> when all components can be
  taken and the place reached is a regular file.
\<close>

definition is_dir_at :: "tree \<Rightarrow> path \<Rightarrow> bool" where
  "is_dir_at t p = (p = [] \<or> (case map_of t p of Some (Dir m) \<Rightarrow> True | _ \<Rightarrow> False))"

definition passable :: "tree \<Rightarrow> path \<Rightarrow> bool" where
  "passable t p = (p = [] \<or> (case map_of t p of Some (Dir m) \<Rightarrow> \<not> sealed m | _ \<Rightarrow> False))"

fun namei :: "tree \<Rightarrow> path \<Rightarrow> string list \<Rightarrow> path option" where
  "namei t cur [] = Some cur"
| "namei t cur (c # cs) =
     (if c = [] then (if is_dir_at t cur then namei t cur cs else None)
      else if \<not> passable t cur then None
      else if c = ''.'' then namei t cur cs
      else if c = ''..'' then namei t (butlast cur) cs
      else if map_of t (cur @ [c]) = None then None
      else namei t (cur @ [c]) cs)"

definition os_path_isfile :: "tree \<Rightarrow> string \<Rightarrow> bool" where
  "os_path_isfile t s =
     (s \<noteq> [] \<and>
      (case namei t [] (split_on (CHR ''/'') s) of
         None \<Rightarrow> False
       | Some p \<Rightarrow> p \<noteq> [] \<and> (case map_of t p of Some (File f) \<Rightarrow> True | _ \<Rightarrow> False)))"

text \<open>
  \<open>Path(s)\<close>: the components of the string, without the empty ones and \<open>.\<close>. A component
  \<open>..\<close> stays, as in \<open>pathlib\<close>.
\<close>

definition Path :: "string \<Rightarrow> path" where
  "Path s = [c \<leftarrow> split_on (CHR ''/'') s. c \<noteq> [] \<and> c \<noteq> ''.'']"

text \<open>\<open>Path.stem\<close>: the name without its last suffix, if it has one.\<close>

definition stem :: "path \<Rightarrow> string" where
  "stem p =
     (let n = name p; i = length n - Suc (length (takeWhile (\<lambda>c. c \<noteq> CHR ''.'') (rev n)))
      in if CHR ''.'' \<in> set n \<and> 0 < i \<and> Suc i < length n then take i n else n)"

definition cfr_path :: string where
  "cfr_path = ''cfr-0.152.jar''"

definition sys_exit :: "int \<Rightarrow> action" where
  "sys_exit c = raise (SystemExit c)"

definition select_mode :: "runner \<Rightarrow> CFRDecompiler \<Rightarrow> string \<Rightarrow> string \<Rightarrow> action" where
  "select_mode java decompiler jar_path mode =
     (if mode = ''1'' then mode_1_inplace java decompiler (Path jar_path)
      else if mode = ''2'' then
        input ''Output folder name: '' (\<lambda>s.
          mode_2_to_folder java decompiler (Path jar_path)
            (Path (if strip s \<noteq> [] then strip s else stem (Path jar_path) @ ''_extracted'')))
      else if mode = ''3'' then
        input ''Project folder name: '' (\<lambda>s.
          mode_3_gradle_project java decompiler (Path jar_path)
            (Path (if strip s \<noteq> [] then strip s else stem (Path jar_path) @ ''_project'')))
      else print ''[-] Unknown mode. Exiting.'')"

definition interactive_mode :: "runner \<Rightarrow> action" where
  "interactive_mode java =
     seq (print ''=== JAR Decompiler Helper ==='')
       (input ''Target .jar path: '' (\<lambda>s w.
          if \<not> os_path_isfile (fs w) cfr_path then
            seq (print ''[-] Error: CFR jar not found.'') (sys_exit 1) w
          else if \<not> os_path_isfile (fs w) (strip s) then
            seq (print ''[-] Error: Target jar not found.'') (sys_exit 1) w
          else case new_CFRDecompiler (Path cfr_path) (fs w) of
            Inl e \<Rightarrow>
              if is_Exception e then seq (print (''[-] '' @ str_exn e)) (sys_exit 1) w
              else raise e w
          | Inr decompiler \<Rightarrow>
              seq (print ([CHR 0x0A] @ ''Available modes:''))
             (seq (print ''1 - Inplace (replace .class with .java inside jar)'')
             (seq (print ''2 - Unpack all (sources + resources to folder)'')
             (seq (print ''3 - IDE Ready (create Gradle project structure)'')
                  (input ([CHR 0x0A] @ ''Select mode (1/2/3): '') (\<lambda>m.
                     select_mode java decompiler (strip s) (strip m)))))) w))"

text \<open>
  The script body: the exit status of the process and the world it leaves. An exception
  that is neither caught nor a \<open>SystemExit\<close> cannot leave \<open>interactive_mode\<close> past the two
  handlers, so every outcome has a status.
\<close>

definition main :: "runner \<Rightarrow> world \<Rightarrow> int \<times> world" where
  "main java w =
     (case interactive_mode java w of
        (None, w') \<Rightarrow> (0, w')
      | (Some KeyboardInterrupt, w') \<Rightarrow> (0, w'\<lparr>out := out w' @ [[CHR 0x0A] @ ''[*] Aborted by user.'']\<rparr>)
      | (Some (SystemExit c), w') \<Rightarrow> (c, w')
      | (Some e, w') \<Rightarrow>
          (1, w'\<lparr>out := out w' @ [[CHR 0x0A] @ ''[!] Unexpected error: '' @ str_exn e]\<rparr>))"

section \<open>Vocabulary of the theorems\<close>

text \<open>An action raises only exceptions of a given kind.\<close>

definition raises_only :: "(exn \<Rightarrow> bool) \<Rightarrow> action \<Rightarrow> bool" where
  "raises_only P m = (\<forall>w e w'. m w = (Some e, w') \<longrightarrow> P e)"

definition exit_1_or_caught :: "exn \<Rightarrow> bool" where
  "exit_1_or_caught e = (case e of SystemExit c \<Rightarrow> c = 1 | _ \<Rightarrow> True)"

text \<open>An archive whose second member cannot be read.\<close>

definition torn_world :: world where
  "torn_world =
     \<lparr>fs = [([''App.jar''],
              new_file (Archive [Member [''a.txt''] (Bytes ''hello''), Damaged [''b.txt''],
                                 Member [''c.txt''] (Bytes ''c'')]) 0)],
      out = [], clock = 1, stdin = []\<rparr>"

text \<open>
  What one removal attempt of the cleaner may make of a node: nothing, or a regular file
  is gone or has mode \<open>0o200\<close>, or a directory is sealed.
\<close>

definition pruned :: "node option \<Rightarrow> node option \<Rightarrow> bool" where
  "pruned x y =
     (y = x \<or>
      (case x of
         None \<Rightarrow> False
       | Some (File f) \<Rightarrow> y = None \<or> y = Some (File (f\<lparr>readable := False, readonly := False\<rparr>))
       | Some (Dir m) \<Rightarrow> y = Some (Dir (m\<lparr>sealed := True\<rparr>))))"

text \<open>
  Every step of an action stays within a relation between the world before and the world
  after; such a relation is used when it is reflexive and transitive.
\<close>

definition steps :: "(world \<Rightarrow> world \<Rightarrow> bool) \<Rightarrow> action \<Rightarrow> bool" where
  "steps R m = (\<forall>w. R w (snd (m w)))"

definition preordered :: "(world \<Rightarrow> world \<Rightarrow> bool) \<Rightarrow> bool" where
  "preordered R = ((\<forall>w. R w w) \<and> (\<forall>a b c. R a b \<longrightarrow> R b c \<longrightarrow> R a c))"

text \<open>
  The cleaner's relation: outside the paths strictly below its directory with a name
  ending in \<open>.class\<close> nothing changes, and there a node is as one removal attempt may
  leave it.
\<close>

definition prunes :: "path \<Rightarrow> world \<Rightarrow> world \<Rightarrow> bool" where
  "prunes d w w' =
     (\<forall>q. (\<not> (strict_prefix d q \<and> class_pattern (name q)) \<longrightarrow>
             map_of (fs w') q = map_of (fs w) q) \<and>
          pruned (map_of (fs w) q) (map_of (fs w') q))"

text \<open>
  An output folder with a read-only class file, a busy one, a directory whose name ends
  in \<open>.class\<close> with a class file in it, and a resource.
\<close>

definition mixed_world :: world where
  "mixed_world =
     \<lparr>fs = [([''out''], new_dir),
            ([''out'', ''A.class''],
               File \<lparr>data = Bytes ''A'', mtime = 0, readable = True, readonly = True,
                     foreign = False, busy = False\<rparr>),
            ([''out'', ''B.class''],
               File \<lparr>data = Bytes ''B'', mtime = 0, readable = True, readonly = False,
                     foreign = False, busy = True\<rparr>),
            ([''out'', ''pkg.class''], new_dir),
            ([''out'', ''pkg.class'', ''C.class''], new_file (Bytes ''C'') 0),
            ([''out'', ''a.txt''], new_file (Bytes ''hello'') 0)],
      out = [], clock = 1, stdin = []\<rparr>"

text \<open>
  An output folder with a read-only class file, a resource, and a directory whose name
  ends in \<open>.class\<close> that holds a class file and a resource.
\<close>

definition class_dir_world :: world where
  "class_dir_world =
     \<lparr>fs = [([''out''], new_dir),
            ([''out'', ''A.class''],
               File \<lparr>data = Bytes ''A'', mtime = 0, readable = True, readonly = True,
                     foreign = False, busy = False\<rparr>),
            ([''out'', ''pkg.class''], new_dir),
            ([''out'', ''pkg.class'', ''C.class''], new_file (Bytes ''C'') 0),
            ([''out'', ''pkg.class'', ''r.txt''], new_file (Bytes ''r'') 0),
            ([''out'', ''a.txt''], new_file (Bytes ''hello'') 0)],
      out = [], clock = 1, stdin = []\<rparr>"

definition remove_warning :: "path \<Rightarrow> exn \<Rightarrow> string" where
  "remove_warning p e = ''[!] Could not remove file: '' @ name p @ ''. Error: '' @ str_exn e"



definition exits_with :: "int \<Rightarrow> string \<Rightarrow> (path \<times> content) list \<Rightarrow> runner" where
  "exits_with rc err files cmd t = Exited rc err files"

definition cfr_tool :: CFRDecompiler where
  "cfr_tool = \<lparr>cfr_jar_path = [''cfr-0.152.jar'']\<rparr>"

definition menu_lines :: "string list" where
  "menu_lines =
     [''=== JAR Decompiler Helper ==='', ''Target .jar path: '',
      [CHR 0x0A] @ ''Available modes:'',
      ''1 - Inplace (replace .class with .java inside jar)'',
      ''2 - Unpack all (sources + resources to folder)'',
      ''3 - IDE Ready (create Gradle project structure)'',
      [CHR 0x0A] @ ''Select mode (1/2/3): '']"

definition app_archive :: content where
  "app_archive =
     Archive [Member [''com'', ''x'', ''A.class''] (Bytes ''CAFE''),
              Member [''res'', ''a.txt''] (Bytes ''hello'')]"

text \<open>A working directory with the decompiler, an archive, and the temporary directory.\<close>

definition desk :: "keyin list \<Rightarrow> world" where
  "desk ins =
     \<lparr>fs = [([''cfr-0.152.jar''], new_file (Bytes ''cfr'') 0), ([''App.jar''], new_file app_archive 0),
            ([''tmp''], new_dir)],
      out = [], clock = 1, stdin = ins\<rparr>"

text \<open>A node is kept: it is what it was, or a new directory has appeared where nothing was.\<close>

definition kept :: "node option \<Rightarrow> node option \<Rightarrow> bool" where
  "kept x y = (y = x \<or> (x = None \<and> y = Some new_dir))"

text \<open>An action writes within an area: outside the area every node is kept.\<close>

definition frame :: "(path \<Rightarrow> bool) \<Rightarrow> world \<Rightarrow> world \<Rightarrow> bool" where
  "frame A w w' = (\<forall>q. \<not> A q \<longrightarrow> kept (map_of (fs w) q) (map_of (fs w') q))"

definition writes_in :: "(path \<Rightarrow> bool) \<Rightarrow> action \<Rightarrow> bool" where
  "writes_in A m = steps (frame A) m"

text \<open>The exceptions of the operating system's calls.\<close>

fun is_OSError :: "exn \<Rightarrow> bool" where
  "is_OSError (FileNotFoundError m) = True"
| "is_OSError (FileExistsError m) = True"
| "is_OSError (IsADirectoryError m) = True"
| "is_OSError (NotADirectoryError m) = True"
| "is_OSError (PermissionError m) = True"
| "is_OSError (SameFileError m) = True"
| "is_OSError e = False"

definition nested_world :: world where
  "nested_world =
     \<lparr>fs = [([''cfr-0.152.jar''], new_file (Bytes ''cfr'') 0),
            ([''tmp''], new_dir), ([''P''], new_dir), ([''P'', ''src''], new_dir),
            ([''P'', ''src'', ''main''], new_dir),
            ([''P'', ''src'', ''main'', ''resources''], new_dir),
            ([''P'', ''src'', ''main'', ''resources'', ''lib.jar''],
               new_file (Archive [Member [''lib.jar''] (Bytes ''inner'')]) 0)],
      out = [], clock = 1, stdin = []\<rparr>"

definition cfr_ok :: runner where
  "cfr_ok = exits_with 0 [] [([''com'', ''x'', ''A.java''], Bytes ''class A {}'')]"

text \<open>
  The world in which an Inplace run makes its temporary directory, and the file tree that
  the repackaging step finds: extracted, decompiled and pruned.
\<close>

definition inplace_entry :: "path \<Rightarrow> world \<Rightarrow> world" where
  "inplace_entry jar_path w =
     w\<lparr>out := out w @ [''[*] Mode 1: Updating '' @ name jar_path @ ''...''],
       fs := AList.update (mkdtemp (fs w)) new_dir (fs w)\<rparr>"

definition pruned_inplace :: "runner \<Rightarrow> CFRDecompiler \<Rightarrow> path \<Rightarrow> world \<Rightarrow> tree" where
  "pruned_inplace java self jar_path w =
     fs (snd (stage_inplace java self jar_path (mkdtemp (fs w)) (inplace_entry jar_path w)))"

text \<open>
  ProjectScaffold: the world in which the temporary directory is made (the project
  directories exist and the decompiler has run), the temporary directory, and the
  temporary tree after extraction and pruning.
\<close>

definition scaffold_entry :: "runner \<Rightarrow> CFRDecompiler \<Rightarrow> path \<Rightarrow> path \<Rightarrow> world \<Rightarrow> world" where
  "scaffold_entry java self jar_path proj_dir w =
     snd (seq (mkdir_parents (java_dir_of proj_dir))
         (seq (mkdir_parents (res_dir_of proj_dir))
         (seq (print (''[*] Mode 3: Creating Gradle project in '' @ name proj_dir @ ''...''))
              (run_cfr java self jar_path (java_dir_of proj_dir)))) w)"

definition scaffold_tmp :: "runner \<Rightarrow> CFRDecompiler \<Rightarrow> path \<Rightarrow> path \<Rightarrow> world \<Rightarrow> path" where
  "scaffold_tmp java self jar_path proj_dir w =
     mkdtemp (fs (scaffold_entry java self jar_path proj_dir w))"

definition staged_resources :: "runner \<Rightarrow> CFRDecompiler \<Rightarrow> path \<Rightarrow> path \<Rightarrow> world \<Rightarrow> tree" where
  "staged_resources java self jar_path proj_dir w =
     fs (snd (stage_resources jar_path (scaffold_tmp java self jar_path proj_dir w)
                ((scaffold_entry java self jar_path proj_dir w)
                   \<lparr>fs := AList.update (scaffold_tmp java self jar_path proj_dir w) new_dir
                            (fs (scaffold_entry java self jar_path proj_dir w))\<rparr>)))"

text \<open>
  An archive with a class file, a resource, and a resource in a folder whose name ends in
  \<open>.class\<close>.
\<close>

definition class_dir_archive :: content where
  "class_dir_archive =
     Archive [Member [''A.class''] (Bytes ''CAFE''),
              Member [''a.txt''] (Bytes ''hello''),
              Member [''pkg.class'', ''r.txt''] (Bytes ''r'')]"

definition class_dir_desk :: world where
  "class_dir_desk =
     \<lparr>fs = [([''cfr-0.152.jar''], new_file (Bytes ''cfr'') 0),
            ([''App.jar''], new_file class_dir_archive 0),
            ([''tmp''], new_dir)],
      out = [], clock = 1, stdin = []\<rparr>"

text \<open>A project folder where a directory is already at \<open>src/main/resources/res/a.txt\<close>.\<close>

definition blocked_world :: world where
  "blocked_world =
     \<lparr>fs = [([''cfr-0.152.jar''], new_file (Bytes ''cfr'') 0), ([''App.jar''], new_file app_archive 0),
            ([''tmp''], new_dir), ([''P''], new_dir), ([''P'', ''src''], new_dir),
            ([''P'', ''src'', ''main''], new_dir),
            ([''P'', ''src'', ''main'', ''resources''], new_dir),
            ([''P'', ''src'', ''main'', ''resources'', ''res''], new_dir),
            ([''P'', ''src'', ''main'', ''resources'', ''res'', ''a.txt''], new_dir)],
      out = [], clock = 1, stdin = []\<rparr>"

section \<open>Control-flow lemmas\<close>

lemma seq_None: "m w = (None, w') \<Longrightarrow> seq m k w = k w'"
  by (simp add: seq_def)

lemma seq_Some: "m w = (Some e, w') \<Longrightarrow> seq m k w = (Some e, w')"
  by (simp add: seq_def)

lemma raises_only_seq:
  "raises_only P m \<Longrightarrow> raises_only P k \<Longrightarrow> raises_only P (seq m k)"
  unfolding raises_only_def seq_def
  by (auto split: prod.splits option.splits)

lemma raises_only_ret: "raises_only P ret"
  by (simp add: raises_only_def ret_def)

lemma raises_only_raise: "P e \<Longrightarrow> raises_only P (raise e)"
  by (simp add: raises_only_def raise_def)

lemma raises_only_print: "raises_only P (print s)"
  by (simp add: raises_only_def print_def)

lemma raises_only_weaken: "raises_only P m \<Longrightarrow> (\<And>e. P e \<Longrightarrow> Q e) \<Longrightarrow> raises_only Q m"
  by (auto simp: raises_only_def)

lemma raises_only_fun: "(\<And>w. raises_only P (m w)) \<Longrightarrow> raises_only P (\<lambda>w. m w w)"
  by (auto simp: raises_only_def)

lemma raises_only_for_each:
  "(\<And>x. raises_only P (body x)) \<Longrightarrow> raises_only P (for_each body xs)"
  by (induction xs) (simp_all add: raises_only_ret raises_only_seq)

lemma raises_only_try:
  "(\<And>e. raises_only P (h e)) \<Longrightarrow> (\<And>e. \<not> is_Exception e \<Longrightarrow> P e) \<Longrightarrow> 
   raises_only P (try_except_Exception m h)"
  unfolding raises_only_def try_except_Exception_def
  by (auto split: prod.splits option.splits if_splits)

lemma raises_only_try_Exception:
  "raises_only is_Exception m \<Longrightarrow> (\<And>e. raises_only P (h e)) \<Longrightarrow>
   raises_only P (try_except_Exception m h)"
  unfolding raises_only_def try_except_Exception_def
  by (auto split: prod.splits option.splits if_splits)

lemma is_Exception_errno [simp]:
  "is_Exception (ENOENT p)" "is_Exception (EEXIST p)" "is_Exception (EISDIR p)"
  "is_Exception (ENOTDIR p)" "is_Exception (EACCES p)" "is_Exception (EPERM p)"
  by (simp_all add: ENOENT_def EEXIST_def EISDIR_def ENOTDIR_def EACCES_def EPERM_def)

lemma is_PermissionError_Exception: "is_PermissionError e \<Longrightarrow> is_Exception e"
  by (cases e) simp_all

lemma walk_exn: "walk t p qs = Some e \<Longrightarrow> is_Exception e"
  by (induction qs) (auto split: option.splits node.splits if_splits)

lemma blocked_exn: "blocked t p = Some e \<Longrightarrow> is_Exception e"
  unfolding blocked_def by (rule walk_exn)

lemma stat_exn: "stat t p = Inl e \<Longrightarrow> is_Exception e"
  by (auto simp: stat_def split: option.splits if_splits dest: blocked_exn)

lemma scandir_exn: "scandir t p = Inl e \<Longrightarrow> is_Exception e"
  by (auto simp: scandir_def split: sum.splits node.splits if_splits dest: stat_exn)

lemma Path_test_exn: "Path_test P t p = Inl e \<Longrightarrow> is_Exception e"
  by (auto simp: Path_test_def split: sum.splits if_splits dest: stat_exn)

lemma open_read_exn: "open_read t p = Inl e \<Longrightarrow> is_Exception e"
  by (auto simp: open_read_def split: sum.splits node.splits if_splits dest: stat_exn)

lemma mkdir_chain_exn: "mkdir_chain p qs t = Inl e \<Longrightarrow> is_Exception e"
  by (induction p qs t rule: mkdir_chain.induct) (auto split: option.splits node.splits if_splits)

lemma raises_only_mkdir_parents: "raises_only is_Exception (mkdir_parents p)"
  by (auto simp: raises_only_def mkdir_parents_def raise_def ret_def
      split: sum.splits dest: mkdir_chain_exn)

lemma raises_only_write_file: "raises_only is_Exception (write_file p d)"
  by (auto simp: raises_only_def write_file_def raise_def ret_def
      split: if_splits option.splits node.splits dest: blocked_exn)

lemma raises_only_os_mkdir: "raises_only is_Exception (os_mkdir p)"
  by (auto simp: raises_only_def os_mkdir_def raise_def ret_def
      split: if_splits option.splits dest: blocked_exn)

lemma raises_only_os_makedirs: "raises_only is_Exception (os_makedirs p)"
  unfolding raises_only_def
proof (intro allI impI)
  fix w e w'
  assume "os_makedirs p w = (Some e, w')"
  then show "is_Exception e"
  proof (induction p w arbitrary: e w' rule: os_makedirs.induct)
    case (1 p w)
    note mk = raises_only_os_mkdir [of p, unfolded raises_only_def, rule_format]
    show ?case
    proof (cases "butlast p \<noteq> [] \<and> \<not> os_path_exists (fs w) (butlast p)")
      case True
      obtain r v where rv: "os_makedirs (butlast p) w = (r, v)" by (cases "os_makedirs (butlast p) w")
      show ?thesis
      proof (cases r)
        case None
        with True rv 1(2) have "os_mkdir p v = (Some e, w')"
          by (subst (asm) os_makedirs.simps) simp
        then show ?thesis by (rule mk)
      next
        case (Some x)
        show ?thesis
        proof (cases "is_FileExistsError x")
          case t: True
          with True rv Some 1(2) have "os_mkdir p v = (Some e, w')"
            by (subst (asm) os_makedirs.simps) simp
          then show ?thesis by (rule mk)
        next
          case f: False
          with True rv Some 1(2) have "e = x"
            by (subst (asm) os_makedirs.simps) simp
          with 1(1) [OF True, of x v] rv Some show ?thesis by simp
        qed
      qed
    next
      case False
      with 1(2) have "os_mkdir p w = (Some e, w')"
        by (subst (asm) os_makedirs.simps) auto
      then show ?thesis by (rule mk)
    qed
  qed
qed

lemma raises_only_make_upperdirs: "raises_only is_Exception (make_upperdirs p)"
  using raises_only_os_makedirs
  by (auto simp: raises_only_def make_upperdirs_def ret_def split: if_splits)

lemma raises_only_extract_dir_member: "raises_only is_Exception (extract_dir_member p)"
proof -
  have "raises_only is_Exception (\<lambda>w. if os_path_isdir (fs w) p then ret w else os_mkdir p w)"
    using raises_only_os_mkdir [of p]
    by (auto simp: raises_only_def ret_def split: if_splits)
  then show ?thesis
    unfolding extract_dir_member_def by (intro raises_only_seq raises_only_make_upperdirs)
qed

lemma raises_only_extract_member: "raises_only is_Exception (extract_member dir m)"
  by (cases m)
     (simp_all add: raises_only_seq raises_only_make_upperdirs raises_only_write_file
        raises_only_extract_dir_member raises_only_raise)

lemma raises_only_zip_extractall: "raises_only is_Exception (zip_extractall jar dir)"
  using raises_only_for_each [of is_Exception "extract_member dir", OF raises_only_extract_member]
  by (auto simp: raises_only_def zip_extractall_def raise_def
      split: sum.splits content.splits dest: open_read_exn)

section \<open>The archive unpacker never raises\<close>

lemma extract_jar_contents_fst: "fst (extract_jar_contents jar_path extract_dir w) = None"
  using raises_only_zip_extractall [of jar_path extract_dir]
  by (auto simp: extract_jar_contents_def try_except_Exception_def print_def raises_only_def
      split: prod.splits option.splits)

lemma extract_jar_contents_None:
  "extract_jar_contents jar_path extract_dir w =
     (None, snd (extract_jar_contents jar_path extract_dir w))"
  using extract_jar_contents_fst [of jar_path extract_dir w]
  by (cases "extract_jar_contents jar_path extract_dir w") simp

lemma raises_only_extract_jar_contents: "raises_only P (extract_jar_contents jar d)"
  using extract_jar_contents_fst
  by (auto simp: raises_only_def dest: arg_cong [where f = fst])

text \<open>
  Claim C7. For every archive path and destination directory, the archive unpacker returns
  normally: whatever exception the extraction raises, for the whole archive (missing, a
  directory, unreadable, not an archive) or at one member, is caught, and the warning with
  the exception's text is printed on the world the extraction has left.
\<close>

theorem extract_jar_contents_returns:
  "fst (extract_jar_contents jar_path extract_dir w) = None \<and>
   (\<forall>e w'. zip_extractall jar_path extract_dir w = (Some e, w') \<longrightarrow>
      snd (extract_jar_contents jar_path extract_dir w) =
        w'\<lparr>out := out w' @ [''[!] Extraction warning: '' @ str_exn e]\<rparr>)"
  using raises_only_zip_extractall [of jar_path extract_dir]
  by (auto simp: extract_jar_contents_def try_except_Exception_def print_def raises_only_def
      split: prod.splits option.splits)

theorem extract_jar_contents_returns_witness:
  "zip_extractall [''App.jar''] [''out''] torn_world =
     (Some (BadZipFile ''Bad magic number for file header''),
      \<lparr>fs = fs torn_world @ [([''out''], new_dir), ([''out'', ''a.txt''], new_file (Bytes ''hello'') 1)],
       out = [], clock = 2, stdin = []\<rparr>) \<and>
   fst (extract_jar_contents [''App.jar''] [''out''] torn_world) = None \<and>
   snd (extract_jar_contents [''App.jar''] [''out''] torn_world) =
     \<lparr>fs = fs torn_world @ [([''out''], new_dir), ([''out'', ''a.txt''], new_file (Bytes ''hello'') 1)],
      out = [''[!] Extraction warning: Bad magic number for file header''],
      clock = 2, stdin = []\<rparr>"
proof -
  have h: "zip_extractall [''App.jar''] [''out''] torn_world =
     (Some (BadZipFile ''Bad magic number for file header''),
      \<lparr>fs = fs torn_world @ [([''out''], new_dir), ([''out'', ''a.txt''], new_file (Bytes ''hello'') 1)],
       out = [], clock = 2, stdin = []\<rparr>)"
    by code_simp
  show ?thesis
    using extract_jar_contents_returns [of "[''App.jar'']" "[''out'']" torn_world] h
    by simp
qed

section \<open>The artifact cleaner\<close>

lemma pruned_refl [simp]: "pruned x x"
  by (simp add: pruned_def)

lemma pruned_trans: "pruned x y \<Longrightarrow> pruned y z \<Longrightarrow> pruned x z"
  by (auto simp: pruned_def split: option.splits node.splits)

lemma pruned_None [simp]: "pruned None y \<longleftrightarrow> y = None"
  by (auto simp: pruned_def)

lemma in_tl_prefixes: "q \<in> set (tl (prefixes p)) \<longleftrightarrow> prefix q p \<and> q \<noteq> []"
  by (cases p) (auto simp: prefix_Cons)

lemma above_Nil [simp]: "above [] = []"
  by (simp add: above_def)

lemma above_snoc [simp]: "above (xs @ [x]) = tl (prefixes xs)"
  by (simp add: above_def)

lemma in_above: "q \<in> set (above p) \<longleftrightarrow> strict_prefix q p \<and> q \<noteq> []"
proof (cases p rule: rev_cases)
  case Nil
  then show ?thesis by simp
next
  case (snoc xs x)
  have "strict_prefix q (xs @ [x]) \<longleftrightarrow> prefix q xs"
    by (auto simp: strict_prefix_def dest: prefix_length_le)
  with snoc show ?thesis by (simp add: in_tl_prefixes)
qed

lemma walk_cong:
  "(\<And>q. q \<in> set qs \<Longrightarrow> map_of t' q = map_of t q) \<Longrightarrow> walk t' p qs = walk t p qs"
  by (induction qs) (auto split: option.splits node.splits)

lemma blocked_cong:
  "(\<And>q. strict_prefix q p \<Longrightarrow> map_of t' q = map_of t q) \<Longrightarrow> blocked t' p = blocked t p"
  unfolding blocked_def by (rule walk_cong) (simp add: in_above)

lemma stat_cong:
  "(\<And>q. prefix q p \<Longrightarrow> map_of t' q = map_of t q) \<Longrightarrow> stat t' p = stat t p"
  using blocked_cong [of p t' t]
  by (auto simp: stat_def strict_prefix_def split: option.splits)

lemma blocked_update_self [simp]: "blocked (AList.update p n t) p = blocked t p"
  by (rule blocked_cong) (auto simp: update_conv')

lemma raises_only_chmod: "raises_only is_Exception (os_chmod_S_IWRITE p)"
  by (auto simp: raises_only_def os_chmod_S_IWRITE_def raise_def ret_def
      split: sum.splits node.splits if_splits dest: stat_exn)

lemma raises_only_unlink: "raises_only is_Exception (path_unlink p)"
  by (auto simp: raises_only_def path_unlink_def raise_def ret_def
      split: sum.splits node.splits if_splits dest: stat_exn)

lemma remove_one_returns: "fst (remove_one p w) = None"
  using raises_only_seq [OF raises_only_chmod raises_only_unlink, of p p]
  by (auto simp: remove_one_def try_except_Exception_def print_def raises_only_def
      split: prod.splits option.splits)

lemma chmod_lookup:
  "map_of (fs (snd (os_chmod_S_IWRITE p w))) q =
     (if q = p then
        (case stat (fs w) p of
           Inl e \<Rightarrow> map_of (fs w) p
         | Inr (File f) \<Rightarrow> if foreign f then map_of (fs w) p
                           else Some (File (f\<lparr>readable := False, readonly := False\<rparr>))
         | Inr (Dir m) \<Rightarrow> if fixed m then map_of (fs w) p else Some (Dir (m\<lparr>sealed := True\<rparr>)))
      else map_of (fs w) q)"
  by (auto simp: os_chmod_S_IWRITE_def raise_def ret_def update_conv'
      split: sum.splits node.splits)

lemma stat_node: "stat t p = Inr n \<Longrightarrow> p \<noteq> [] \<Longrightarrow> map_of t p = Some n"
  by (auto simp: stat_def split: option.splits if_splits)

lemma unlink_lookup:
  "map_of (fs (snd (path_unlink p w))) q =
     (if q = p \<and> fst (path_unlink p w) = None then None else map_of (fs w) q)"
  by (auto simp: path_unlink_def raise_def ret_def delete_conv'
      split: sum.splits node.splits)

lemma unlink_out [simp]: "out (snd (path_unlink p w)) = out w"
  by (auto simp: path_unlink_def raise_def ret_def split: sum.splits node.splits)

lemma chmod_out [simp]: "out (snd (os_chmod_S_IWRITE p w)) = out w"
  by (auto simp: os_chmod_S_IWRITE_def raise_def ret_def split: sum.splits node.splits)

lemma chmod_pruned:
  "p \<noteq> [] \<Longrightarrow> pruned (map_of (fs w) q) (map_of (fs (snd (os_chmod_S_IWRITE p w))) q)"
  by (auto simp: chmod_lookup pruned_def dest: stat_node split: sum.splits node.splits)

lemma unlink_pruned:
  "p \<noteq> [] \<Longrightarrow> pruned (map_of (fs w) q) (map_of (fs (snd (path_unlink p w))) q)"
  by (auto simp: path_unlink_def raise_def ret_def delete_conv' pruned_def
      dest: stat_node split: sum.splits node.splits)

lemma remove_one_fs:
  "fs (snd (remove_one p w)) = fs (snd (seq (os_chmod_S_IWRITE p) (path_unlink p) w))"
  by (auto simp: remove_one_def try_except_Exception_def print_def
      split: prod.splits option.splits)

lemma seq_snd_cases:
  "snd (seq m k w) = (if fst (m w) = None then snd (k (snd (m w))) else snd (m w))"
  by (auto simp: seq_def split: prod.splits option.splits)

lemma remove_one_other:
  "q \<noteq> p \<Longrightarrow> map_of (fs (snd (remove_one p w))) q = map_of (fs w) q"
  by (simp add: remove_one_fs seq_snd_cases unlink_lookup chmod_lookup)

lemma remove_one_pruned:
  assumes "p \<noteq> []"
  shows "pruned (map_of (fs w) q) (map_of (fs (snd (remove_one p w))) q)"
proof (cases "fst (os_chmod_S_IWRITE p w) = None")
  case True
  have "pruned (map_of (fs w) q) (map_of (fs (snd (os_chmod_S_IWRITE p w))) q)"
    by (rule chmod_pruned [OF assms])
  moreover have "pruned (map_of (fs (snd (os_chmod_S_IWRITE p w))) q)
        (map_of (fs (snd (path_unlink p (snd (os_chmod_S_IWRITE p w))))) q)"
    by (rule unlink_pruned [OF assms])
  ultimately show ?thesis
    using True by (simp add: remove_one_fs seq_snd_cases pruned_trans)
next
  case False
  then show ?thesis
    using chmod_pruned [OF assms, of w q] by (auto simp: remove_one_fs seq_snd_cases)
qed

lemma attempt_out [simp]: "out (snd (seq (os_chmod_S_IWRITE p) (path_unlink p) w)) = out w"
  by (simp add: seq_snd_cases)

lemma attempt_exn:
  "fst (seq (os_chmod_S_IWRITE p) (path_unlink p) w) = Some e \<Longrightarrow> is_Exception e"
  using raises_only_seq [OF raises_only_chmod raises_only_unlink, of p p]
  by (auto simp: raises_only_def) (metis prod.collapse)

lemma remove_one_out:
  "out (snd (remove_one p w)) =
     (case fst (seq (os_chmod_S_IWRITE p) (path_unlink p) w) of
        None \<Rightarrow> out w
      | Some e \<Rightarrow> out w @ [remove_warning p e])"
proof (cases "seq (os_chmod_S_IWRITE p) (path_unlink p) w")
  case (Pair r v)
  then have v: "out v = out w"
    using attempt_out [of p w] by simp
  show ?thesis
  proof (cases r)
    case None
    with Pair v show ?thesis
      by (simp add: remove_one_def try_except_Exception_def)
  next
    case (Some e)
    with Pair have "is_Exception e" using attempt_exn [of p w e] by simp
    with Pair Some v show ?thesis
      by (simp add: remove_one_def try_except_Exception_def print_def remove_warning_def)
  qed
qed

lemma remove_one_out_mono: "set (out w) \<subseteq> set (out (snd (remove_one p w)))"
  by (cases "fst (seq (os_chmod_S_IWRITE p) (path_unlink p) w)") (auto simp: remove_one_out)

section \<open>Actions that stay within a relation\<close>

lemma steps_ret: "preordered R \<Longrightarrow> steps R ret"
  by (simp add: steps_def preordered_def ret_def)

lemma steps_raise: "preordered R \<Longrightarrow> steps R (raise e)"
  by (simp add: steps_def preordered_def raise_def)

lemma steps_seq:
  assumes "preordered R" and "steps R m" and "steps R k"
  shows "steps R (seq m k)"
  unfolding steps_def
proof
  fix w
  have 1: "R w (snd (m w))" using assms(2) by (simp add: steps_def)
  have 2: "R (snd (m w)) (snd (k (snd (m w))))" using assms(3) by (simp add: steps_def)
  from assms(1) 1 2 have "R w (snd (k (snd (m w))))"
    unfolding preordered_def by blast
  with 1 show "R w (snd (seq m k w))"
    by (simp add: seq_snd_cases)
qed

lemma steps_for_each:
  assumes "preordered R" and "\<And>x. x \<in> set xs \<Longrightarrow> steps R (body x)"
  shows "steps R (for_each body xs)"
  using assms(2)
  by (induction xs) (simp_all add: steps_ret steps_seq assms(1))

lemma steps_try:
  assumes "preordered R" and "steps R m" and "\<And>e. steps R (h e)"
  shows "steps R (try_except_Exception m h)"
  unfolding steps_def
proof
  fix w
  have 1: "R w (snd (m w))" using assms(2) by (simp add: steps_def)
  have 2: "R (snd (m w)) (snd (h e (snd (m w))))" for e
    using assms(3) [of e] by (simp add: steps_def)
  from assms(1) 1 2 have 3: "R w (snd (h e (snd (m w))))" for e
    unfolding preordered_def by blast
  show "R w (snd (try_except_Exception m h w))"
    using 1 3
    by (auto simp: try_except_Exception_def split: prod.splits option.splits)
qed

lemma steps_fun: "(\<And>v. steps R (m v)) \<Longrightarrow> steps R (\<lambda>w. m w w)"
  by (simp add: steps_def)

lemma steps_weaken: "steps R m \<Longrightarrow> (\<And>a b. R a b \<Longrightarrow> S a b) \<Longrightarrow> steps S m"
  by (simp add: steps_def)

lemma in_listdir: "p \<in> set (listdir t d) \<longleftrightarrow> p \<in> fst ` set t \<and> p \<noteq> [] \<and> butlast p = d"
  by (auto simp: listdir_def)

lemma distinct_listdir [simp]: "distinct (listdir t d)"
  by (simp add: listdir_def)

lemma child_below: "p \<noteq> [] \<Longrightarrow> butlast p = d \<Longrightarrow> strict_prefix d p"
  by (metis append_butlast_last_id strict_prefixI' )

lemma listdir_below: "p \<in> set (listdir t d) \<Longrightarrow> strict_prefix d p"
  by (auto simp: in_listdir child_below)

lemma scandir_below: "scandir t d = Inr es \<Longrightarrow> p \<in> set es \<Longrightarrow> strict_prefix d p"
  by (auto simp: scandir_def split: sum.splits node.splits if_splits dest: listdir_below)

lemma steps_rglob_loop:
  assumes "preordered R"
    and "\<And>p. strict_prefix d p \<Longrightarrow> pat (name p) \<Longrightarrow> steps R (body p)"
  shows "steps R (rglob_loop n pat body d)"
  using assms(2)
proof (induction n arbitrary: d)
  case 0
  show ?case by (simp add: steps_ret assms(1))
next
  case (Suc n)
  have refl: "R w w" for w using assms(1) by (simp add: preordered_def)
  show ?case
    unfolding steps_def
  proof
    fix w
    show "R w (snd (rglob_loop (Suc n) pat body d w))"
    proof (cases "scandir (fs w) d")
      case (Inl e)
      then show ?thesis by (simp add: ret_def raise_def refl)
    next
      case (Inr es)
      have 1: "steps R (for_each body [p \<leftarrow> es. pat (name p)])"
        by (rule steps_for_each [OF assms(1)]) (use Inr Suc.prems scandir_below in auto)
      have 2: "steps R (\<lambda>w'. case scandir (fs w') d of
                 Inl e \<Rightarrow> if is_PermissionError e then ret w' else raise e w'
               | Inr es' \<Rightarrow>
                   for_each (rglob_loop n pat body) [c \<leftarrow> es'. is_dir_entry (fs w') c] w')"
        unfolding steps_def
      proof
        fix v
        show "R v (snd (case scandir (fs v) d of
                 Inl e \<Rightarrow> if is_PermissionError e then ret v else raise e v
               | Inr es' \<Rightarrow>
                   for_each (rglob_loop n pat body) [c \<leftarrow> es'. is_dir_entry (fs v) c] v))"
        proof (cases "scandir (fs v) d")
          case (Inl e)
          then show ?thesis by (simp add: ret_def raise_def refl)
        next
          case r: (Inr es')
          have "steps R (for_each (rglob_loop n pat body) [c \<leftarrow> es'. is_dir_entry (fs v) c])"
          proof (rule steps_for_each [OF assms(1)])
            fix c
            assume "c \<in> set [c \<leftarrow> es'. is_dir_entry (fs v) c]"
            then have c: "strict_prefix d c" using r scandir_below by auto
            show "steps R (rglob_loop n pat body c)"
            proof (rule Suc.IH)
              fix p
              assume "strict_prefix c p" and "pat (name p)"
              then show "steps R (body p)"
                using c Suc.prems [of p] by (meson prefix_order.less_trans)
            qed
          qed
          with r show ?thesis by (simp add: steps_def)
        qed
      qed
      have "steps R (seq (for_each body [p \<leftarrow> es. pat (name p)])
              (\<lambda>w'. case scandir (fs w') d of
                 Inl e \<Rightarrow> if is_PermissionError e then ret w' else raise e w'
               | Inr es' \<Rightarrow>
                   for_each (rglob_loop n pat body) [c \<leftarrow> es'. is_dir_entry (fs w') c] w'))"
        by (rule steps_seq [OF assms(1) 1 2])
      with Inr show ?thesis by (simp add: steps_def)
    qed
  qed
qed

lemma steps_rglob_for:
  assumes "preordered R"
    and "\<And>p. strict_prefix d p \<Longrightarrow> pat (name p) \<Longrightarrow> steps R (body p)"
  shows "steps R (rglob_for d pat body)"
proof -
  have refl: "R w w" for w using assms(1) by (simp add: preordered_def)
  have "R w (snd (rglob_loop n pat body d w))" for n w
    using steps_rglob_loop [OF assms, where n = n] by (simp add: steps_def)
  then show ?thesis
    by (auto simp: steps_def rglob_for_def ret_def raise_def refl split: sum.splits bool.splits)
qed

lemma steps_walk_loop:
  assumes "preordered R"
    and "\<And>p. strict_prefix d p \<Longrightarrow> steps R (body p)"
  shows "steps R (walk_loop n body d)"
  using assms(2)
proof (induction n arbitrary: d)
  case 0
  show ?case by (simp add: steps_ret assms(1))
next
  case (Suc n)
  have refl: "R w w" for w using assms(1) by (simp add: preordered_def)
  show ?case
    unfolding steps_def
  proof
    fix w
    show "R w (snd (walk_loop (Suc n) body d w))"
    proof (cases "scandir (fs w) d")
      case (Inl e)
      then show ?thesis by (simp add: ret_def refl)
    next
      case (Inr es)
      have 1: "steps R (for_each body [p \<leftarrow> es. \<not> is_dir_entry (fs w) p])"
        by (rule steps_for_each [OF assms(1)]) (use Inr Suc.prems scandir_below in auto)
      have 2: "steps R (for_each (walk_loop n body) [c \<leftarrow> es. is_dir_entry (fs w) c])"
      proof (rule steps_for_each [OF assms(1)])
        fix c
        assume "c \<in> set [c \<leftarrow> es. is_dir_entry (fs w) c]"
        then have c: "strict_prefix d c" using Inr scandir_below by auto
        show "steps R (walk_loop n body c)"
        proof (rule Suc.IH)
          fix p
          assume "strict_prefix c p"
          then show "steps R (body p)"
            using c Suc.prems [of p] by (meson prefix_order.less_trans)
        qed
      qed
      have "steps R (seq (for_each body [p \<leftarrow> es. \<not> is_dir_entry (fs w) p])
              (for_each (walk_loop n body) [c \<leftarrow> es. is_dir_entry (fs w) c]))"
        by (rule steps_seq [OF assms(1) 1 2])
      with Inr show ?thesis by (simp add: steps_def)
    qed
  qed
qed

lemma steps_walk_for:
  assumes "preordered R"
    and "\<And>p. strict_prefix d p \<Longrightarrow> steps R (body p)"
  shows "steps R (walk_for d body)"
proof -
  have "R w (snd (walk_loop n body d w))" for n w
    using steps_walk_loop [OF assms, where n = n] by (simp add: steps_def)
  then show ?thesis
    by (simp add: steps_def walk_for_def)
qed

section \<open>The cleaner changes class files only\<close>

lemma preordered_prunes: "preordered (prunes d)"
  unfolding preordered_def prunes_def
  by (auto intro: pruned_trans)

lemma steps_prunes_remove_one:
  assumes "strict_prefix d p" and "class_pattern (name p)"
  shows "steps (prunes d) (remove_one p)"
proof -
  have "p \<noteq> []" using assms(1) by auto
  then show ?thesis
    using assms remove_one_other [of _ p] remove_one_pruned [of p]
    unfolding steps_def prunes_def by metis
qed

lemma steps_prunes_remove_class_files: "steps (prunes d) (remove_class_files d)"
  unfolding remove_class_files_def
  by (rule steps_rglob_for [OF preordered_prunes steps_prunes_remove_one])

text \<open>
  Claim C10. The cleaner changes nothing but paths strictly below its directory whose name
  ends in \<open>.class\<close>: every other node keeps its place and its contents, every directory
  stays a directory (one named \<open>*.class\<close> may have been sealed), whatever disappears was a
  regular file with such a name below the directory, nothing is created, and a regular
  file that stays keeps its data and its modification time.
\<close>

theorem remove_class_files_frame:
  "(\<forall>q. \<not> (strict_prefix directory q \<and> suffix ''.class'' (name q)) \<longrightarrow>
        map_of (fs (snd (remove_class_files directory w))) q = map_of (fs w) q) \<and>
   (\<forall>q m. map_of (fs w) q = Some (Dir m) \<longrightarrow>
        map_of (fs (snd (remove_class_files directory w))) q = Some (Dir m) \<or>
        map_of (fs (snd (remove_class_files directory w))) q = Some (Dir (m\<lparr>sealed := True\<rparr>))) \<and>
   (\<forall>q n. map_of (fs w) q = Some n \<and>
          map_of (fs (snd (remove_class_files directory w))) q = None \<longrightarrow>
        (\<exists>f. n = File f) \<and> strict_prefix directory q \<and> suffix ''.class'' (name q)) \<and>
   (\<forall>q. map_of (fs w) q = None \<longrightarrow>
        map_of (fs (snd (remove_class_files directory w))) q = None) \<and>
   (\<forall>q f n. map_of (fs w) q = Some (File f) \<and>
          map_of (fs (snd (remove_class_files directory w))) q = Some n \<longrightarrow>
        (\<exists>g. n = File g \<and> data g = data f \<and> mtime g = mtime f))"
proof -
  have p: "prunes directory w (snd (remove_class_files directory w))"
    using steps_prunes_remove_class_files [of directory] by (simp add: steps_def)
  have 1: "\<not> (strict_prefix directory q \<and> suffix ''.class'' (name q)) \<Longrightarrow>
        map_of (fs (snd (remove_class_files directory w))) q = map_of (fs w) q" for q
    using p by (simp add: prunes_def class_pattern_def)
  have 2: "pruned (map_of (fs w) q) (map_of (fs (snd (remove_class_files directory w))) q)" for q
    using p by (simp add: prunes_def)
  show ?thesis
  proof (intro conjI allI impI)
    fix q
    assume "\<not> (strict_prefix directory q \<and> suffix ''.class'' (name q))"
    then show "map_of (fs (snd (remove_class_files directory w))) q = map_of (fs w) q"
      by (rule 1)
  next
    fix q m
    assume "map_of (fs w) q = Some (Dir m)"
    then show "map_of (fs (snd (remove_class_files directory w))) q = Some (Dir m) \<or>
        map_of (fs (snd (remove_class_files directory w))) q = Some (Dir (m\<lparr>sealed := True\<rparr>))"
      using 2 [of q] by (auto simp: pruned_def)
  next
    fix q n
    assume a: "map_of (fs w) q = Some n \<and>
          map_of (fs (snd (remove_class_files directory w))) q = None"
    then show "\<exists>f. n = File f"
      using 2 [of q] by (cases n) (auto simp: pruned_def)
    show "strict_prefix directory q" using a 1 [of q] by auto
    show "suffix ''.class'' (name q)" using a 1 [of q] by auto
  next
    fix q
    assume "map_of (fs w) q = None"
    then show "map_of (fs (snd (remove_class_files directory w))) q = None"
      using 2 [of q] by simp
  next
    fix q f n
    assume "map_of (fs w) q = Some (File f) \<and>
          map_of (fs (snd (remove_class_files directory w))) q = Some n"
    then show "\<exists>g. n = File g \<and> data g = data f \<and> mtime g = mtime f"
      using 2 [of q] by (auto simp: pruned_def)
  qed
qed

theorem remove_class_files_frame_witness:
  "\<not> (strict_prefix [''out''] [''out'', ''a.txt''] \<and> suffix ''.class'' (name [''out'', ''a.txt''])) \<and>
   map_of (fs (snd (remove_class_files [''out''] mixed_world))) [''out'', ''a.txt'']
     = map_of (fs mixed_world) [''out'', ''a.txt''] \<and>
   map_of (fs mixed_world) [''out'', ''pkg.class''] = Some new_dir \<and>
   map_of (fs (snd (remove_class_files [''out''] mixed_world))) [''out'', ''pkg.class'']
     = Some (Dir \<lparr>sealed = True, fixed = False\<rparr>) \<and>
   map_of (fs mixed_world) [''out'', ''A.class'']
     = Some (File \<lparr>data = Bytes ''A'', mtime = 0, readable = True, readonly = True,
                    foreign = False, busy = False\<rparr>) \<and>
   map_of (fs (snd (remove_class_files [''out''] mixed_world))) [''out'', ''A.class''] = None \<and>
   strict_prefix [''out''] [''out'', ''A.class''] \<and> suffix ''.class'' (name [''out'', ''A.class'']) \<and>
   map_of (fs mixed_world) [''out'', ''zzz''] = None \<and>
   map_of (fs (snd (remove_class_files [''out''] mixed_world))) [''out'', ''zzz''] = None \<and>
   map_of (fs mixed_world) [''out'', ''B.class'']
     = Some (File \<lparr>data = Bytes ''B'', mtime = 0, readable = True, readonly = False,
                    foreign = False, busy = True\<rparr>) \<and>
   map_of (fs (snd (remove_class_files [''out''] mixed_world))) [''out'', ''B.class'']
     = Some (File \<lparr>data = Bytes ''B'', mtime = 0, readable = False, readonly = False,
                    foreign = False, busy = True\<rparr>)"
proof -
  have h1: "\<not> (strict_prefix [''out''] [''out'', ''a.txt''] \<and>
               suffix ''.class'' (name [''out'', ''a.txt'']))"
    by code_simp
  have h2: "map_of (fs mixed_world) [''out'', ''pkg.class''] = Some new_dir"
    by code_simp
  have h3: "map_of (fs mixed_world) [''out'', ''A.class'']
     = Some (File \<lparr>data = Bytes ''A'', mtime = 0, readable = True, readonly = True,
                    foreign = False, busy = False\<rparr>)"
    by code_simp
  have h4: "map_of (fs (snd (remove_class_files [''out''] mixed_world))) [''out'', ''A.class''] = None"
    by code_simp
  have h5: "map_of (fs mixed_world) [''out'', ''zzz''] = None"
    by code_simp
  have h6: "map_of (fs (snd (remove_class_files [''out''] mixed_world))) [''out'', ''pkg.class'']
     = Some (Dir \<lparr>sealed = True, fixed = False\<rparr>)"
    by code_simp
  have h7: "map_of (fs mixed_world) [''out'', ''B.class'']
     = Some (File \<lparr>data = Bytes ''B'', mtime = 0, readable = True, readonly = False,
                    foreign = False, busy = True\<rparr>)"
    by code_simp
  have h8: "map_of (fs (snd (remove_class_files [''out''] mixed_world))) [''out'', ''B.class'']
     = Some (File \<lparr>data = Bytes ''B'', mtime = 0, readable = False, readonly = False,
                    foreign = False, busy = True\<rparr>)"
    by code_simp
  show ?thesis
    using remove_class_files_frame [of "[''out'']" mixed_world] h1 h2 h3 h4 h5 h6 h7 h8
    by blast
qed

text \<open>
  Claim C6, the code at a directory named like a class file. The cleaner returns normally,
  removes the read-only \<open>A.class\<close>, and prints one warning, for the directory \<open>pkg.class\<close>,
  which it has sealed before trying to remove it. The traversal does not go on to
  \<open>pkg.class/C.class\<close>: the file is still there and no line speaks of it.
\<close>

theorem remove_class_files_stops_at_sealed:
  "fst (remove_class_files [''out''] class_dir_world) = None \<and>
   map_of (fs (snd (remove_class_files [''out''] class_dir_world))) [''out'', ''A.class''] = None \<and>
   map_of (fs (snd (remove_class_files [''out''] class_dir_world))) [''out'', ''pkg.class'']
     = Some (Dir \<lparr>sealed = True, fixed = False\<rparr>) \<and>
   map_of (fs (snd (remove_class_files [''out''] class_dir_world)))
     [''out'', ''pkg.class'', ''C.class''] = Some (new_file (Bytes ''C'') 0) \<and>
   out (snd (remove_class_files [''out''] class_dir_world)) =
     [''[!] Could not remove file: pkg.class. Error: [Errno 21] Is a directory: ''
        @ quoted ''out/pkg.class'']"
  by code_simp

section \<open>Every pipeline raises exceptions only\<close>

lemma raises_only_rglob_loop:
  assumes "\<And>p. raises_only is_Exception (body p)"
  shows "raises_only is_Exception (rglob_loop n pat body d)"
proof (induction n arbitrary: d)
  case 0
  show ?case by (simp add: raises_only_ret)
next
  case (Suc n)
  have 1: "raises_only is_Exception (for_each body ps)" for ps
    by (rule raises_only_for_each [OF assms])
  have 2: "raises_only is_Exception (for_each (rglob_loop n pat body) cs)" for cs
    by (rule raises_only_for_each [OF Suc.IH])
  have 3: "raises_only is_Exception (\<lambda>w'. case scandir (fs w') d of
                 Inl e \<Rightarrow> if is_PermissionError e then ret w' else raise e w'
               | Inr es' \<Rightarrow>
                   for_each (rglob_loop n pat body) [c \<leftarrow> es'. is_dir_entry (fs w') c] w')"
    using 2 unfolding raises_only_def
    by (auto simp: ret_def raise_def split: sum.splits if_splits dest: scandir_exn)
  show ?case
    using raises_only_seq [OF 1 3] unfolding raises_only_def
    by (auto simp: ret_def raise_def split: sum.splits if_splits dest: scandir_exn)
qed

lemma raises_only_rglob_for:
  assumes "\<And>p. raises_only is_Exception (body p)"
  shows "raises_only is_Exception (rglob_for d pat body)"
  using raises_only_rglob_loop [of body _ pat d, OF assms]
  unfolding raises_only_def rglob_for_def Path_is_dir_def
  by (auto simp: ret_def raise_def split: sum.splits bool.splits dest: Path_test_exn)

lemma raises_only_walk_loop:
  assumes "\<And>p. raises_only is_Exception (body p)"
  shows "raises_only is_Exception (walk_loop n body d)"
proof (induction n arbitrary: d)
  case 0
  show ?case by (simp add: raises_only_ret)
next
  case (Suc n)
  have 1: "raises_only is_Exception (for_each body ps)" for ps
    by (rule raises_only_for_each [OF assms])
  have 2: "raises_only is_Exception (for_each (walk_loop n body) cs)" for cs
    by (rule raises_only_for_each [OF Suc.IH])
  show ?case
    using raises_only_seq [OF 1 2] unfolding raises_only_def
    by (auto simp: ret_def split: sum.splits)
qed

lemma raises_only_walk_for:
  assumes "\<And>p. raises_only is_Exception (body p)"
  shows "raises_only is_Exception (walk_for d body)"
  using raises_only_walk_loop [of body _ d, OF assms]
  unfolding raises_only_def walk_for_def by auto

lemma raises_only_remove_one: "raises_only P (remove_one p)"
  using remove_one_returns [of p]
  by (auto simp: raises_only_def dest: arg_cong [where f = fst])

lemma raises_only_remove_class_files: "raises_only is_Exception (remove_class_files d)"
  unfolding remove_class_files_def
  by (rule raises_only_rglob_for) (rule raises_only_remove_one)

lemma raises_only_run_cfr: "raises_only is_Exception (run_cfr java self jar d)"
  by (auto simp: raises_only_def run_cfr_def seq_def print_def raise_def ret_def
      subprocess_run_check_def ENOENT_def
      split: prod.splits option.splits exn.splits proc.splits if_splits)

lemma raises_only_with_TemporaryDirectory:
  "(\<And>tmp. raises_only P (body tmp)) \<Longrightarrow> raises_only P (with_TemporaryDirectory body)"
  unfolding raises_only_def with_TemporaryDirectory_def Let_def
  by (auto split: prod.splits)

lemma raises_only_zip_one: "raises_only is_Exception (zip_one jar tmp p)"
  by (auto simp: raises_only_def zip_one_def zip_add_def raise_def ret_def Path_is_file_def
      split: sum.splits bool.splits option.splits node.splits content.splits
      dest: Path_test_exn open_read_exn)

lemma raises_only_zip_write: "raises_only is_Exception (zip_write jar tmp)"
proof -
  have "raises_only is_Exception
      (\<lambda>w. case rglob_for tmp any_pattern (zip_one jar tmp) w of (r, w') \<Rightarrow> (r, zip_close jar w'))"
    using raises_only_rglob_for [of "zip_one jar tmp" tmp any_pattern, OF raises_only_zip_one]
    by (auto simp: raises_only_def split: prod.splits)
  then show ?thesis
    unfolding zip_write_def by (intro raises_only_seq raises_only_write_file)
qed

lemma raises_only_mode_1: "raises_only is_Exception (mode_1_inplace java self jar)"
  unfolding mode_1_inplace_def stage_inplace_def
  by (intro raises_only_seq raises_only_print raises_only_with_TemporaryDirectory
      raises_only_extract_jar_contents raises_only_run_cfr raises_only_remove_class_files
      raises_only_zip_write)

lemma raises_only_mode_2: "raises_only is_Exception (mode_2_to_folder java self jar d)"
  unfolding mode_2_to_folder_def
  by (intro raises_only_seq raises_only_print raises_only_mkdir_parents
      raises_only_extract_jar_contents raises_only_run_cfr raises_only_remove_class_files)

lemma raises_only_copystat: "raises_only is_Exception (copystat f p)"
  by (auto simp: raises_only_def copystat_def raise_def ret_def
      split: sum.splits node.splits if_splits dest: stat_exn)

lemma raises_only_shutil_copy2: "raises_only is_Exception (shutil_copy2 src dst)"
  using raises_only_seq [OF raises_only_write_file raises_only_copystat]
  by (auto simp: raises_only_def shutil_copy2_def Let_def raise_def
      split: sum.splits if_splits dest: open_read_exn)

lemma raises_only_copy_one: "raises_only is_Exception (copy_one tmp res p)"
  unfolding copy_one_def
  by (intro raises_only_seq raises_only_mkdir_parents raises_only_shutil_copy2)

lemma raises_only_copy_resources: "raises_only is_Exception (copy_resources tmp res)"
  unfolding copy_resources_def
  by (rule raises_only_walk_for) (rule raises_only_copy_one)

lemma raises_only_mode_3: "raises_only is_Exception (mode_3_gradle_project java self jar d)"
  unfolding mode_3_gradle_project_def stage_resources_def
  by (intro raises_only_seq raises_only_print raises_only_mkdir_parents
      raises_only_with_TemporaryDirectory raises_only_copy_resources
      raises_only_extract_jar_contents raises_only_run_cfr raises_only_remove_class_files
      raises_only_write_file)

section \<open>The decompiler invoker\<close>





lemma mkdir_parents_out [simp]: "out (snd (mkdir_parents p w)) = out w"
  by (auto simp: mkdir_parents_def raise_def ret_def split: sum.splits)

lemma write_file_out [simp]: "out (snd (write_file p d w)) = out w"
  by (auto simp: write_file_def raise_def ret_def split: option.splits node.splits)

lemma ext_write_out [simp]: "out (ext_write d a v) = out v"
  by (simp add: ext_write_def seq_snd_cases)

lemma fold_ext_write_out [simp]: "out (fold (ext_write d) fl v) = out v"
  by (induction fl arbitrary: v) simp_all







section \<open>Where the pipelines write\<close>

lemma kept_refl [simp]: "kept x x"
  by (simp add: kept_def)

lemma kept_trans: "kept x y \<Longrightarrow> kept y z \<Longrightarrow> kept x z"
  by (auto simp: kept_def)

lemma kept_Some: "kept (Some n) y \<Longrightarrow> y = Some n"
  by (simp add: kept_def)

lemma preordered_frame: "preordered (frame A)"
  unfolding preordered_def frame_def by (auto intro: kept_trans)

lemma frame_mono: "frame A w w' \<Longrightarrow> (\<And>q. A q \<Longrightarrow> B q) \<Longrightarrow> frame B w w'"
  unfolding frame_def by blast

lemma frame_outside:
  "frame A w w' \<Longrightarrow> \<not> A q \<Longrightarrow> map_of (fs w) q = Some n \<Longrightarrow> map_of (fs w') q = Some n"
  by (auto simp: frame_def kept_def)

lemma frame_eq: "map_of (fs w') = map_of (fs w) \<Longrightarrow> frame A w w'"
  by (simp add: frame_def)

lemma writes_in_mono: "writes_in A m \<Longrightarrow> (\<And>q. A q \<Longrightarrow> B q) \<Longrightarrow> writes_in B m"
  unfolding writes_in_def steps_def using frame_mono by blast

lemma writes_in_ret: "writes_in A ret"
  unfolding writes_in_def by (rule steps_ret [OF preordered_frame])

lemma writes_in_raise: "writes_in A (raise e)"
  unfolding writes_in_def by (rule steps_raise [OF preordered_frame])

lemma writes_in_print: "writes_in A (print s)"
  by (simp add: writes_in_def steps_def print_def frame_def)

lemma writes_in_seq: "writes_in A m \<Longrightarrow> writes_in A k \<Longrightarrow> writes_in A (seq m k)"
  unfolding writes_in_def by (rule steps_seq [OF preordered_frame])

lemma writes_in_try:
  "writes_in A m \<Longrightarrow> (\<And>e. writes_in A (h e)) \<Longrightarrow> writes_in A (try_except_Exception m h)"
  unfolding writes_in_def by (rule steps_try [OF preordered_frame])

lemma writes_in_cond:
  "writes_in A m \<Longrightarrow> writes_in A k \<Longrightarrow> writes_in A (\<lambda>w. if c w then m w else k w)"
  by (simp add: writes_in_def steps_def)

lemma writes_in_for_each:
  "(\<And>x. x \<in> set xs \<Longrightarrow> writes_in A (body x)) \<Longrightarrow> writes_in A (for_each body xs)"
  unfolding writes_in_def by (rule steps_for_each [OF preordered_frame])

lemma frame_of_kept: "(\<And>q. kept (map_of (fs w) q) (map_of (fs w') q)) \<Longrightarrow> frame A w w'"
  by (simp add: frame_def)

lemma mkdir_chain_kept:
  "mkdir_chain p qs t = Inr t' \<Longrightarrow> kept (map_of t q) (map_of t' q)"
proof (induction qs arbitrary: t)
  case Nil
  then show ?case by simp
next
  case (Cons a qs)
  show ?case
  proof (cases "map_of t a")
    case None
    then have r: "mkdir_chain p qs (AList.update a new_dir t) = Inr t'"
      using Cons.prems by simp
    have "kept (map_of t q) (map_of (AList.update a new_dir t) q)"
      using None by (auto simp: kept_def AList.update_conv')
    then show ?thesis using Cons.IH [OF r] kept_trans by blast
  next
    case (Some n)
    then show ?thesis using Cons by (cases n) (auto split: if_splits)
  qed
qed

lemma writes_in_mkdir_parents: "writes_in A (mkdir_parents p)"
  unfolding writes_in_def steps_def mkdir_parents_def
  by (auto simp: raise_def ret_def frame_def split: sum.splits intro: mkdir_chain_kept)

lemma write_file_raises: "write_file p d w = (Some e, w') \<Longrightarrow> w' = w"
  by (auto simp: write_file_def raise_def ret_def split: if_splits option.splits node.splits)

lemma write_file_lookup:
  "write_file p d w = (None, w') \<Longrightarrow>
   \<exists>g. map_of (fs w') = (map_of (fs w))(p \<mapsto> File g) \<and> data g = d \<and> mtime g = clock w \<and>
       \<not> readonly g"
  by (auto simp: write_file_def raise_def ret_def AList.update_conv'
      split: if_splits option.splits node.splits)

lemma write_file_other:
  "q \<noteq> p \<Longrightarrow> map_of (fs (snd (write_file p d w))) q = map_of (fs w) q"
  by (auto simp: write_file_def raise_def ret_def AList.update_conv'
      split: if_splits option.splits node.splits)

lemma writes_in_write_file: "A p \<Longrightarrow> writes_in A (write_file p d)"
  unfolding writes_in_def steps_def frame_def
  by (metis write_file_other kept_refl)

lemma os_mkdir_kept: "kept (map_of (fs w) q) (map_of (fs (snd (os_mkdir p w))) q)"
  by (auto simp: os_mkdir_def raise_def ret_def AList.update_conv' kept_def
      split: option.splits)

lemma writes_in_os_mkdir: "writes_in A (os_mkdir p)"
  unfolding writes_in_def steps_def by (simp add: frame_of_kept os_mkdir_kept)

lemma os_makedirs_kept: "kept (map_of (fs w) q) (map_of (fs (snd (os_makedirs p w))) q)"
proof (induction p w rule: os_makedirs.induct)
  case (1 p w)
  show ?case
  proof (cases "butlast p \<noteq> [] \<and> \<not> os_path_exists (fs w) (butlast p)")
    case True
    obtain r v where rv: "os_makedirs (butlast p) w = (r, v)"
      by (cases "os_makedirs (butlast p) w")
    have k1: "kept (map_of (fs w) q) (map_of (fs v) q)"
      using 1 [OF True] rv by simp
    have k2: "kept (map_of (fs v) q) (map_of (fs (snd (os_mkdir p v))) q)"
      by (rule os_mkdir_kept)
    have "snd (os_makedirs p w) = snd (os_mkdir p v) \<or> snd (os_makedirs p w) = v"
      using True rv by (subst os_makedirs.simps, subst os_makedirs.simps) (auto split: option.splits)
    then show ?thesis using k1 kept_trans [OF k1 k2] by auto
  next
    case False
    then have "os_makedirs p w = os_mkdir p w"
      by (subst os_makedirs.simps) auto
    then show ?thesis by (simp add: os_mkdir_kept)
  qed
qed

lemma writes_in_os_makedirs: "writes_in A (os_makedirs p)"
  unfolding writes_in_def steps_def by (simp add: frame_of_kept os_makedirs_kept)

lemma writes_in_make_upperdirs: "writes_in A (make_upperdirs p)"
  using writes_in_os_makedirs [of A] writes_in_ret [of A]
  by (auto simp: writes_in_def steps_def make_upperdirs_def)

lemma writes_in_extract_dir_member: "writes_in A (extract_dir_member p)"
  unfolding extract_dir_member_def
  by (intro writes_in_seq writes_in_make_upperdirs writes_in_cond writes_in_ret writes_in_os_mkdir)

lemma writes_in_extract_member: "writes_in (prefix dir) (extract_member dir m)"
  by (cases m)
     (simp_all add: writes_in_seq writes_in_make_upperdirs writes_in_write_file
        writes_in_extract_dir_member writes_in_raise)

lemma writes_in_zip_extractall: "writes_in (prefix dir) (zip_extractall jar dir)"
proof -
  have "writes_in (prefix dir) (for_each (extract_member dir) ms)" for ms
    by (rule writes_in_for_each) (rule writes_in_extract_member)
  then show ?thesis
    using writes_in_raise [of "prefix dir"]
    by (auto simp: writes_in_def steps_def zip_extractall_def split: sum.splits content.splits)
qed

lemma writes_in_extract_jar_contents: "writes_in (prefix dir) (extract_jar_contents jar dir)"
  unfolding extract_jar_contents_def
  by (intro writes_in_try writes_in_zip_extractall writes_in_print)

lemma frame_ext_write: "frame (prefix d) w (ext_write d f w)"
proof -
  have "writes_in (prefix d)
     (seq (mkdir_parents (butlast (d @ sanitize (fst f)))) (write_file (d @ sanitize (fst f)) (snd f)))"
    by (intro writes_in_seq writes_in_mkdir_parents writes_in_write_file) simp
  then show ?thesis by (simp add: writes_in_def steps_def ext_write_def)
qed

lemma frame_fold_ext_write: "frame (prefix d) w (fold (ext_write d) fl w)"
proof (induction fl arbitrary: w)
  case Nil
  show ?case by (simp add: frame_def)
next
  case (Cons f fl)
  have "frame (prefix d) w (ext_write d f w)" by (rule frame_ext_write)
  moreover have "frame (prefix d) (ext_write d f w) (fold (ext_write d) fl (ext_write d f w))"
    by (rule Cons.IH)
  ultimately show ?case
    using preordered_frame [of "prefix d"] unfolding preordered_def by (metis fold_simps(2))
qed

lemma writes_in_subprocess_run_check:
  "writes_in (prefix d) (subprocess_run_check java cmd d)"
  unfolding writes_in_def steps_def
  using frame_fold_ext_write [of d]
  by (auto simp: raise_def ret_def subprocess_run_check_def frame_def split: proc.splits)

lemma run_cfr_fs:
  "fs (snd (run_cfr java self jar d w)) =
     fs (snd (subprocess_run_check java (cfr_command self jar d) d
                (w\<lparr>out := out w @ [''[*] Running CFR for '' @ name jar @ ''...'']\<rparr>)))"
  by (auto simp: run_cfr_def seq_def print_def raise_def
      split: prod.splits option.splits exn.splits)

lemma writes_in_run_cfr: "writes_in (prefix d) (run_cfr java self jar d)"
  unfolding writes_in_def steps_def
proof
  fix w
  have "frame (prefix d) (w\<lparr>out := out w @ [''[*] Running CFR for '' @ name jar @ ''...'']\<rparr>)
          (snd (subprocess_run_check java (cfr_command self jar d) d
                (w\<lparr>out := out w @ [''[*] Running CFR for '' @ name jar @ ''...'']\<rparr>)))"
    using writes_in_subprocess_run_check [of d java] by (simp add: writes_in_def steps_def)
  then show "frame (prefix d) w (snd (run_cfr java self jar d w))"
    by (simp add: frame_def run_cfr_fs)
qed

lemma prunes_frame: "prunes d w w' \<Longrightarrow> frame (\<lambda>q. strict_prefix d q \<and> class_pattern (name q)) w w'"
  by (simp add: prunes_def frame_def)

lemma writes_in_remove_class_files:
  "writes_in (\<lambda>q. strict_prefix d q \<and> class_pattern (name q)) (remove_class_files d)"
  using steps_prunes_remove_class_files [of d]
  unfolding writes_in_def by (rule steps_weaken) (rule prunes_frame)

lemma copystat_other:
  "q \<noteq> dst \<Longrightarrow> map_of (fs (snd (copystat f dst w))) q = map_of (fs w) q"
  by (auto simp: copystat_def raise_def ret_def AList.update_conv'
      split: sum.splits node.splits)

lemma writes_in_copystat: "A dst \<Longrightarrow> writes_in A (copystat f dst)"
  unfolding writes_in_def steps_def frame_def
  by (metis copystat_other kept_refl)

lemma writes_in_shutil_copy2:
  "A dst \<Longrightarrow> A (dst @ [name src]) \<Longrightarrow> writes_in A (shutil_copy2 src dst)"
proof -
  assume a: "A dst" "A (dst @ [name src])"
  have "writes_in A (seq (write_file p d) (copystat f p))" if "A p" for p d f
    using that by (intro writes_in_seq writes_in_write_file writes_in_copystat)
  then show ?thesis
    using a writes_in_raise [of A]
    by (auto simp: writes_in_def steps_def shutil_copy2_def Let_def
        split: sum.splits)
qed

lemma fold_max_ge: "(a::nat) \<le> fold max xs a \<and> (\<forall>x \<in> set xs. x \<le> fold max xs a)"
proof (induction xs arbitrary: a)
  case Nil
  show ?case by simp
next
  case (Cons y xs)
  show ?case using Cons.IH [of "max y a"] by auto
qed

lemma widest_ge: "q \<in> fst ` set t \<Longrightarrow> c \<in> set q \<Longrightarrow> length c \<le> widest t"
  using fold_max_ge [of 0 "map length (concat (map fst t))"]
  by (auto simp: widest_def)

lemma mkdtemp_fresh: "prefix (mkdtemp t) q \<Longrightarrow> map_of t q = None"
proof (rule ccontr)
  assume p: "prefix (mkdtemp t) q" and n: "map_of t q \<noteq> None"
  have k: "q \<in> fst ` set t"
    using n by (simp add: map_of_eq_None_iff)
  have "''tmp'' @ replicate (widest t) (CHR ''_'') \<in> set q"
    using p by (auto simp: mkdtemp_def prefix_def)
  then have "length (''tmp'' @ replicate (widest t) (CHR ''_'')) \<le> widest t"
    using widest_ge [OF k] by blast
  then show False by simp
qed

lemma rmtree_lookup: "map_of (rmtree d t) q = (if prefix d q then None else map_of t q)"
  by (induction t) (auto simp: rmtree_def)

lemma with_TemporaryDirectory_frame:
  assumes "frame (\<lambda>q. A q \<or> prefix (mkdtemp (fs w)) q)
             (w\<lparr>fs := AList.update (mkdtemp (fs w)) new_dir (fs w)\<rparr>)
             (snd (body (mkdtemp (fs w)) (w\<lparr>fs := AList.update (mkdtemp (fs w)) new_dir (fs w)\<rparr>)))"
  shows "frame A w (snd (with_TemporaryDirectory body w))"
proof -
  let ?tmp = "mkdtemp (fs w)"
  let ?w0 = "w\<lparr>fs := AList.update ?tmp new_dir (fs w)\<rparr>"
  have fin: "map_of (fs (snd (with_TemporaryDirectory body w))) q =
        (if prefix ?tmp q then None else map_of (fs (snd (body ?tmp ?w0))) q)" for q
    by (simp add: with_TemporaryDirectory_def Let_def rmtree_lookup split: prod.splits)
  have ini: "map_of (AList.update ?tmp new_dir (fs w)) q = map_of (fs w) q" if "\<not> prefix ?tmp q" for q
    using that by (auto simp: AList.update_conv')
  show ?thesis
    unfolding frame_def
  proof (intro allI impI)
    fix q
    assume "\<not> A q"
    then show "kept (map_of (fs w) q) (map_of (fs (snd (with_TemporaryDirectory body w))) q)"
      using assms mkdtemp_fresh [of "fs w" q] ini [of q]
      by (auto simp: fin frame_def)
  qed
qed

lemma writes_in_with_TemporaryDirectory:
  "(\<And>tmp. writes_in (\<lambda>q. A q \<or> prefix tmp q) (body tmp)) \<Longrightarrow>
   writes_in A (with_TemporaryDirectory body)"
proof -
  assume a: "\<And>tmp. writes_in (\<lambda>q. A q \<or> prefix tmp q) (body tmp)"
  show ?thesis
    unfolding writes_in_def steps_def
  proof
    fix w
    have "frame (\<lambda>q. A q \<or> prefix (mkdtemp (fs w)) q)
             (w\<lparr>fs := AList.update (mkdtemp (fs w)) new_dir (fs w)\<rparr>)
             (snd (body (mkdtemp (fs w)) (w\<lparr>fs := AList.update (mkdtemp (fs w)) new_dir (fs w)\<rparr>)))"
      using a [of "mkdtemp (fs w)"] unfolding writes_in_def steps_def by blast
    then show "frame A w (snd (with_TemporaryDirectory body w))"
      by (rule with_TemporaryDirectory_frame)
  qed
qed

lemma writes_in_stage_inplace: "writes_in (prefix tmp) (stage_inplace java self jar tmp)"
  unfolding stage_inplace_def
  by (intro writes_in_seq writes_in_extract_jar_contents writes_in_run_cfr
      writes_in_mono [OF writes_in_remove_class_files]) auto

lemma zip_add_other:
  "q \<noteq> jar \<Longrightarrow> map_of (fs (snd (zip_add jar a d w))) q = map_of (fs w) q"
  by (auto simp: zip_add_def ret_def AList.update_conv'
      split: option.splits node.splits content.splits)

lemma zip_one_other:
  "q \<noteq> jar \<Longrightarrow> map_of (fs (snd (zip_one jar tmp p w))) q = map_of (fs w) q"
  by (auto simp: zip_one_def zip_add_other raise_def ret_def split: sum.splits bool.splits)

lemma zip_close_other:
  "q \<noteq> jar \<Longrightarrow> map_of (fs (zip_close jar w)) q = map_of (fs w) q"
  by (auto simp: zip_close_def AList.update_conv' split: option.splits node.splits)

lemma writes_in_zip_one: "writes_in (\<lambda>q. q = jar) (zip_one jar tmp p)"
  unfolding writes_in_def steps_def frame_def by (simp add: zip_one_other)

lemma writes_in_rglob_for:
  "(\<And>p. strict_prefix d p \<Longrightarrow> pat (name p) \<Longrightarrow> writes_in A (body p)) \<Longrightarrow>
   writes_in A (rglob_for d pat body)"
  unfolding writes_in_def by (rule steps_rglob_for [OF preordered_frame])

lemma writes_in_walk_for:
  "(\<And>p. strict_prefix d p \<Longrightarrow> writes_in A (body p)) \<Longrightarrow> writes_in A (walk_for d body)"
  unfolding writes_in_def by (rule steps_walk_for [OF preordered_frame])

lemma writes_in_zip_write: "writes_in (\<lambda>q. q = jar) (zip_write jar tmp)"
proof -
  have l: "writes_in (\<lambda>q. q = jar) (rglob_for tmp any_pattern (zip_one jar tmp))"
    by (rule writes_in_rglob_for) (rule writes_in_zip_one)
  have "writes_in (\<lambda>q. q = jar)
      (\<lambda>w. case rglob_for tmp any_pattern (zip_one jar tmp) w of (r, w') \<Rightarrow> (r, zip_close jar w'))"
    unfolding writes_in_def steps_def
  proof
    fix w
    have "frame (\<lambda>q. q = jar) w (snd (rglob_for tmp any_pattern (zip_one jar tmp) w))"
      using l by (simp add: writes_in_def steps_def)
    then show "frame (\<lambda>q. q = jar) w
        (snd (case rglob_for tmp any_pattern (zip_one jar tmp) w of (r, w') \<Rightarrow> (r, zip_close jar w')))"
      by (auto simp: frame_def zip_close_other split: prod.splits)
  qed
  then show ?thesis
    unfolding zip_write_def by (intro writes_in_seq writes_in_write_file) simp
qed

lemma writes_in_mode_1: "writes_in (\<lambda>q. q = jar) (mode_1_inplace java self jar)"
  unfolding mode_1_inplace_def
  by (intro writes_in_seq writes_in_print writes_in_with_TemporaryDirectory
      writes_in_mono [OF writes_in_stage_inplace] writes_in_mono [OF writes_in_zip_write]) simp_all

lemma writes_in_mode_2: "writes_in (prefix d) (mode_2_to_folder java self jar d)"
  unfolding mode_2_to_folder_def
  by (intro writes_in_seq writes_in_print writes_in_mkdir_parents writes_in_extract_jar_contents
      writes_in_run_cfr writes_in_mono [OF writes_in_remove_class_files]) auto

lemma writes_in_copy_one:
  "writes_in (prefix res) (copy_one tmp res p)"
  unfolding copy_one_def
  by (intro writes_in_seq writes_in_mkdir_parents writes_in_shutil_copy2) simp_all

lemma writes_in_copy_resources: "writes_in (prefix res) (copy_resources tmp res)"
  unfolding copy_resources_def
  by (rule writes_in_walk_for) (rule writes_in_copy_one)

lemma writes_in_stage_resources: "writes_in (prefix tmp) (stage_resources jar tmp)"
  unfolding stage_resources_def
  by (intro writes_in_seq writes_in_extract_jar_contents
      writes_in_mono [OF writes_in_remove_class_files]) auto

lemma writes_in_mode_3:
  "writes_in (\<lambda>q. prefix (java_dir_of proj) q \<or> prefix (res_dir_of proj) q \<or>
                   q = proj @ [''build.gradle''])
     (mode_3_gradle_project java self jar proj)"
  unfolding mode_3_gradle_project_def
  by (intro writes_in_seq writes_in_print writes_in_mkdir_parents
      writes_in_with_TemporaryDirectory
      writes_in_mono [OF writes_in_run_cfr] writes_in_mono [OF writes_in_stage_resources]
      writes_in_mono [OF writes_in_copy_resources] writes_in_write_file) simp_all

section \<open>The repackaging step raises errors of the operating system only\<close>

lemma is_OSError_errno [simp]:
  "is_OSError (ENOENT p)" "is_OSError (EEXIST p)" "is_OSError (EISDIR p)"
  "is_OSError (ENOTDIR p)" "is_OSError (EACCES p)" "is_OSError (EPERM p)"
  by (simp_all add: ENOENT_def EEXIST_def EISDIR_def ENOTDIR_def EACCES_def EPERM_def)












section \<open>The archive and the pipelines\<close>





text \<open>
  Claim C9, as the code has it. Export leaves the archive file as it was whenever the
  archive does not lie in the output folder, and ProjectScaffold whenever it lies neither
  in \<open>src/main/java\<close> nor in \<open>src/main/resources\<close> of the project and is not the project's
  \<open>build.gradle\<close>; this holds whether the run succeeds or raises.
\<close>

theorem export_scaffold_keep_archive:
  assumes "map_of (fs w) jar_path = Some (File f)"
  shows "(\<not> prefix output_dir jar_path \<longrightarrow>
            map_of (fs (snd (mode_2_to_folder java self jar_path output_dir w))) jar_path
              = Some (File f)) \<and>
         (\<not> prefix (java_dir_of proj_dir) jar_path \<and> \<not> prefix (res_dir_of proj_dir) jar_path \<and>
          jar_path \<noteq> proj_dir @ [''build.gradle''] \<longrightarrow>
            map_of (fs (snd (mode_3_gradle_project java self jar_path proj_dir w))) jar_path
              = Some (File f))"
proof (intro conjI impI)
  assume "\<not> prefix output_dir jar_path"
  moreover have "frame (prefix output_dir) w
      (snd (mode_2_to_folder java self jar_path output_dir w))"
    using writes_in_mode_2 [of output_dir java self jar_path]
    unfolding writes_in_def steps_def by blast
  ultimately show "map_of (fs (snd (mode_2_to_folder java self jar_path output_dir w))) jar_path
              = Some (File f)"
    using assms frame_outside [of "prefix output_dir"] by blast
next
  assume a: "\<not> prefix (java_dir_of proj_dir) jar_path \<and> \<not> prefix (res_dir_of proj_dir) jar_path \<and>
          jar_path \<noteq> proj_dir @ [''build.gradle'']"
  have g: "frame (\<lambda>q. prefix (java_dir_of proj_dir) q \<or> prefix (res_dir_of proj_dir) q \<or>
                   q = proj_dir @ [''build.gradle'']) w
      (snd (mode_3_gradle_project java self jar_path proj_dir w))"
    using writes_in_mode_3 [of proj_dir java self jar_path]
    unfolding writes_in_def steps_def by blast
  show "map_of (fs (snd (mode_3_gradle_project java self jar_path proj_dir w))) jar_path
              = Some (File f)"
    using frame_outside [OF g _ assms] a by simp
qed

theorem export_scaffold_keep_archive_witness:
  "map_of (fs (desk [])) [''App.jar''] = Some (new_file app_archive 0) \<and>
   \<not> prefix [''out''] [''App.jar''] \<and>
   map_of (fs (snd (mode_2_to_folder (exits_with 0 [] [([''com'', ''x'', ''A.java''], Bytes ''class'')])
                      cfr_tool [''App.jar''] [''out''] (desk [])))) [''App.jar'']
     = Some (new_file app_archive 0) \<and>
   \<not> prefix (java_dir_of [''P'']) [''App.jar''] \<and> \<not> prefix (res_dir_of [''P'']) [''App.jar''] \<and>
   [''App.jar''] \<noteq> [''P''] @ [''build.gradle''] \<and>
   map_of (fs (snd (mode_3_gradle_project
                      (exits_with 0 [] [([''com'', ''x'', ''A.java''], Bytes ''class'')])
                      cfr_tool [''App.jar''] [''P''] (desk [])))) [''App.jar'']
     = Some (new_file app_archive 0)"
proof -
  have a: "map_of (fs (desk [])) [''App.jar''] = Some (new_file app_archive 0)"
    by code_simp
  have b: "\<not> prefix [''out''] [''App.jar'']"
    by code_simp
  have c: "\<not> prefix (java_dir_of [''P'']) [''App.jar''] \<and> \<not> prefix (res_dir_of [''P'']) [''App.jar''] \<and>
     [''App.jar''] \<noteq> [''P''] @ [''build.gradle'']"
    by code_simp
  show ?thesis
    using export_scaffold_keep_archive [OF a, of "[''out'']" _ cfr_tool "[''P'']"] a b c
    by blast
qed

text \<open>
  The claim as stated (Export and ProjectScaffold never modify the archive) fails when the
  archive lies inside the destination: here it is \<open>P/src/main/resources/lib.jar\<close> and holds a
  member \<open>lib.jar\<close>; the ProjectScaffold run succeeds and the copy of that member has
  replaced the archive.
\<close>

theorem export_scaffold_keep_archive_counterexample:
  "fst (mode_3_gradle_project (exits_with 0 [] []) cfr_tool
          [''P'', ''src'', ''main'', ''resources'', ''lib.jar''] [''P''] nested_world) = None \<and>
   map_of (fs nested_world) [''P'', ''src'', ''main'', ''resources'', ''lib.jar'']
     = Some (new_file (Archive [Member [''lib.jar''] (Bytes ''inner'')]) 0) \<and>
   map_of (fs (snd (mode_3_gradle_project (exits_with 0 [] []) cfr_tool
          [''P'', ''src'', ''main'', ''resources'', ''lib.jar''] [''P''] nested_world)))
       [''P'', ''src'', ''main'', ''resources'', ''lib.jar'']
     = Some (new_file (Bytes ''inner'') 1)"
  by code_simp

section \<open>Evaluations\<close>

text \<open>
  Claim C4, at a failing input. The archive holds \<open>A.class\<close>, \<open>a.txt\<close> and \<open>pkg.class/r.txt\<close>.
  The Inplace run succeeds. The cleaner has sealed the folder \<open>pkg.class\<close>, so the regular
  file \<open>pkg.class/r.txt\<close> remains in the temporary tree after pruning, and the rewritten
  archive has the members \<open>a.txt\<close> and \<open>com/x/A.java\<close> only: that file is not among them.
\<close>

theorem inplace_misses_sealed_folder:
  "fst (mode_1_inplace cfr_ok cfr_tool [''App.jar''] class_dir_desk) = None \<and>
   map_of (pruned_inplace cfr_ok cfr_tool [''App.jar''] class_dir_desk)
       (mkdtemp (fs class_dir_desk) @ [''pkg.class''])
     = Some (Dir \<lparr>sealed = True, fixed = False\<rparr>) \<and>
   map_of (pruned_inplace cfr_ok cfr_tool [''App.jar''] class_dir_desk)
       (mkdtemp (fs class_dir_desk) @ [''pkg.class'', ''r.txt''])
     = Some (new_file (Bytes ''r'') 3) \<and>
   map_of (fs (snd (mode_1_inplace cfr_ok cfr_tool [''App.jar''] class_dir_desk))) [''App.jar'']
     = Some (new_file (Archive [Member [''a.txt''] (Bytes ''hello''),
                                Member [''com'', ''x'', ''A.java''] (Bytes ''class A {}'')]) 6)"
  by code_simp

text \<open>
  Claim C5, at two failing inputs. In a project folder where a directory is already at
  \<open>src/main/resources/res/a.txt\<close> the run succeeds, the temporary tree held \<open>res/a.txt\<close>, and
  the destination is still the directory: the file has gone inside it. With the archive
  that holds \<open>pkg.class/r.txt\<close> the run succeeds, the regular file \<open>pkg.class/r.txt\<close> remains in
  the temporary tree after pruning, in the folder that the cleaner has sealed, and nothing
  is copied to \<open>src/main/resources/pkg.class/r.txt\<close>.
\<close>

theorem scaffold_misses_same_path:
  "fst (mode_3_gradle_project cfr_ok cfr_tool [''App.jar''] [''P''] blocked_world) = None \<and>
   map_of (staged_resources cfr_ok cfr_tool [''App.jar''] [''P''] blocked_world)
     (scaffold_tmp cfr_ok cfr_tool [''App.jar''] [''P''] blocked_world @ [''res'', ''a.txt''])
     = Some (new_file (Bytes ''hello'') 3) \<and>
   map_of (fs (snd (mode_3_gradle_project cfr_ok cfr_tool [''App.jar''] [''P''] blocked_world)))
     (res_dir_of [''P''] @ [''res'', ''a.txt'']) = Some new_dir \<and>
   map_of (fs (snd (mode_3_gradle_project cfr_ok cfr_tool [''App.jar''] [''P''] blocked_world)))
     (res_dir_of [''P''] @ [''res'', ''a.txt'', ''a.txt'']) = Some (new_file (Bytes ''hello'') 3) \<and>
   fst (mode_3_gradle_project cfr_ok cfr_tool [''App.jar''] [''P''] class_dir_desk) = None \<and>
   map_of (staged_resources cfr_ok cfr_tool [''App.jar''] [''P''] class_dir_desk)
     (scaffold_tmp cfr_ok cfr_tool [''App.jar''] [''P''] class_dir_desk @ [''pkg.class'', ''r.txt''])
     = Some (new_file (Bytes ''r'') 4) \<and>
   map_of (fs (snd (mode_3_gradle_project cfr_ok cfr_tool [''App.jar''] [''P''] class_dir_desk)))
     (res_dir_of [''P''] @ [''pkg.class'', ''r.txt'']) = None \<and>
   map_of (fs (snd (mode_3_gradle_project cfr_ok cfr_tool [''App.jar''] [''P''] class_dir_desk)))
     (res_dir_of [''P''] @ [''a.txt'']) = Some (new_file (Bytes ''hello'') 3)"
  by code_simp

end
